theory Spec2Isabelle
  imports Complex_Main "HOL-Library.Word"
begin

section \<open>Python values\<close>

text \<open>
  The values that travel through the service are what Python's \<open>json\<close> module reads and
  writes. A \<open>dict\<close> is an association list in insertion order with the first binding of
  a key being the one that counts; a \<open>str\<close> is a \<open>string\<close> whose characters stand for code
  points; timestamps and durations are exact rationals, in seconds.
\<close>

datatype json =
    JNull
  | JBool bool
  | JInt int
  | JFloat rat
  | JStr string
  | JArr "json list"
  | JObj "(string \<times> json) list"

type_synonym dict = "(string \<times> json) list"
type_synonym byte = "8 word"
type_synonym time = rat

text \<open>The exception classes the code raises or catches, and an exception with its \<open>str()\<close>.\<close>

datatype exc_class =
    TimeoutError
  | ValueError
  | ConnectionError
  | IncompleteReadError
  | KeyError
  | AttributeError
  | TypeError
  | StructError
  | OtherException string

datatype exc = Exc exc_class string

fun class_name :: "exc_class \<Rightarrow> string" where
  "class_name TimeoutError = ''TimeoutError''"
| "class_name ValueError = ''ValueError''"
| "class_name ConnectionError = ''ConnectionError''"
| "class_name IncompleteReadError = ''IncompleteReadError''"
| "class_name KeyError = ''KeyError''"
| "class_name AttributeError = ''AttributeError''"
| "class_name TypeError = ''TypeError''"
| "class_name StructError = ''error''"
| "class_name (OtherException n) = n"

fun exc_type :: "exc \<Rightarrow> exc_class" where
  "exc_type (Exc c m) = c"

fun exc_str :: "exc \<Rightarrow> string" where
  "exc_str (Exc c m) = m"

text \<open>Python's truth value of an object: \<open>if x\<close>, \<open>x or y\<close>, \<open>x and y\<close>.\<close>

fun truthy :: "json \<Rightarrow> bool" where
  "truthy JNull = False"
| "truthy (JBool b) = b"
| "truthy (JInt i) = (i \<noteq> 0)"
| "truthy (JFloat r) = (r \<noteq> 0)"
| "truthy (JStr s) = (s \<noteq> [])"
| "truthy (JArr xs) = (xs \<noteq> [])"
| "truthy (JObj kvs) = (kvs \<noteq> [])"


text \<open>\<open>d.get(k)\<close> and \<open>d.get(k, default)\<close> on a dict; \<open>k in d\<close>.\<close>

definition dict_get_default :: "dict \<Rightarrow> string \<Rightarrow> json \<Rightarrow> json" where
  "dict_get_default d k dflt = (case map_of d k of None \<Rightarrow> dflt | Some v \<Rightarrow> v)"

definition dict_get :: "dict \<Rightarrow> string \<Rightarrow> json" where
  "dict_get d k = dict_get_default d k JNull"

definition dict_has :: "dict \<Rightarrow> string \<Rightarrow> bool" where
  "dict_has d k = (map_of d k \<noteq> None)"

text \<open>\<open>x.get(k)\<close> on an arbitrary object: only a dict has the method.\<close>

fun type_name :: "json \<Rightarrow> string" where
  "type_name JNull = ''NoneType''"
| "type_name (JBool b) = ''bool''"
| "type_name (JInt i) = ''int''"
| "type_name (JFloat r) = ''float''"
| "type_name (JStr s) = ''str''"
| "type_name (JArr xs) = ''list''"
| "type_name (JObj kvs) = ''dict''"

definition no_get :: "json \<Rightarrow> exc" where
  "no_get v = Exc AttributeError
     ([CHR 0x27] @ type_name v @ [CHR 0x27] @ '' object has no attribute '' @
      [CHR 0x27] @ ''get'' @ [CHR 0x27])"


fun py_get_default :: "json \<Rightarrow> string \<Rightarrow> json \<Rightarrow> exc + json" where
  "py_get_default (JObj d) k dflt = Inr (dict_get_default d k dflt)"
| "py_get_default v k dflt = Inl (no_get v)"



section \<open>SEO scoring (processor/advanced.py) and the scraper's metadata\<close>
















text \<open>
  The page of the scoring scenario: title "Example title for SEO", a description meta
  of 60 characters, one \<open>h1\<close>, a canonical link, an \<open>og:title\<close> meta and no robots meta;
  and the \<open>scraping_data\<close> of that page, which is where \<open>evaluate_seo\<close> reads the
  description.
\<close>

definition example_description :: string where
  "example_description = ''An example page description that is exactly sixty chars long''"




definition example_scraping_data :: dict where
  "example_scraping_data =
     [(''title'', JStr ''Example title for SEO''),
      (''links'', JArr []),
      (''meta_tags'', JObj [(''description'', JStr example_description),
                            (''og:title'', JStr ''Open Graph Title'')]),
      (''structure'', JObj [(''h1'', JInt 1), (''h2'', JInt 0), (''h3'', JInt 0),
                            (''h4'', JInt 0), (''h5'', JInt 0), (''h6'', JInt 0)]),
      (''images_count'', JInt 0)]"

section \<open>Dispatch of the analyzers (server_processing.py)\<close>

text \<open>\<open>d[k] = v\<close>: an existing key keeps its place, a new key goes to the end.\<close>

fun dict_set :: "dict \<Rightarrow> string \<Rightarrow> json \<Rightarrow> dict" where
  "dict_set [] k v = [(k, v)]"
| "dict_set ((k', v') # d) k v = (if k' = k then (k, v) # d else (k', v') # dict_set d k v)"

text \<open>
  The analyzers fetch pages, render screenshots and parse HTML; \<open>process_tasks\<close> only
  decides which of them run and where their results go. They are parameters of the
  model, each returning a value or the exception it raised, together with the
  library's \<open>base64.b64encode\<close>.
\<close>

record analyzers =
  an_take_screenshot :: "json \<Rightarrow> exc + byte list"
  an_analyze_performance :: "json \<Rightarrow> exc + json"
  an_generate_thumbnails :: "json \<Rightarrow> exc + byte list list"
  an_detect_technologies :: "json \<Rightarrow> exc + json"
  an_evaluate_seo :: "json \<Rightarrow> json \<Rightarrow> exc + json"
  an_extract_structured_data :: "json \<Rightarrow> exc + json"
  an_analyze_accessibility :: "json \<Rightarrow> exc + json"
  an_b64encode :: "byte list \<Rightarrow> string"

definition bytes_to_base64 :: "(byte list \<Rightarrow> string) \<Rightarrow> byte list option \<Rightarrow> string option" where
  "bytes_to_base64 b64encode data =
     (case data of None \<Rightarrow> None | Some bs \<Rightarrow> Some (b64encode bs))"

fun encode_thumbnails :: "(byte list \<Rightarrow> string) \<Rightarrow> byte list list \<Rightarrow> string list" where
  "encode_thumbnails b64encode [] = []"
| "encode_thumbnails b64encode (thumb # thumbs) =
     (case bytes_to_base64 b64encode (Some thumb) of
        None \<Rightarrow> encode_thumbnails b64encode thumbs
      | Some encoded_thumb \<Rightarrow> encoded_thumb # encode_thumbnails b64encode thumbs)"

definition opt_str :: "string option \<Rightarrow> json" where
  "opt_str s = (case s of None \<Rightarrow> JNull | Some x \<Rightarrow> JStr x)"

text \<open>
  Each of the seven blocks of \<open>process_tasks\<close> has one shape: under a guard, call the
  analyzer inside \<open>try\<close> and store its result under a key of \<open>out\<close>, or the neutral
  value when it raised. The state is \<open>out\<close> together with the names of the analyzers
  called so far, in call order, so that "not invoked" can be stated.
\<close>

definition try_analyzer ::
  "bool \<Rightarrow> string \<Rightarrow> string \<Rightarrow> exc + json \<Rightarrow> json \<Rightarrow> dict \<times> string list \<Rightarrow> dict \<times> string list" where
  "try_analyzer guard key name outcome neutral st =
     (if guard then
        (dict_set (fst st) key (case outcome of Inr v \<Rightarrow> v | Inl e \<Rightarrow> neutral),
         snd st @ [name])
      else st)"

text \<open>
  Every \<open>tasks.get\<close> is on the same object: when \<open>tasks\<close> is not a dict the first of
  them raises, before any analyzer has run.
\<close>

definition process_tasks ::
  "analyzers \<Rightarrow> json \<Rightarrow> json \<Rightarrow> json \<Rightarrow> json \<Rightarrow> json \<Rightarrow> exc + (dict \<times> string list)" where
  "process_tasks an url tasks image_urls html scraping_data =
     (case tasks of
        JObj t \<Rightarrow>
          (let st = ([(''screenshot'', JNull), (''performance'', JNull),
                      (''thumbnails'', JArr []), (''tech_stack'', JArr []), (''seo'', JObj []),
                      (''structured_data'', JArr []), (''accessibility'', JObj [])], []);
               st = try_analyzer (truthy (dict_get t ''screenshot''))
                      ''screenshot'' ''take_screenshot''
                      (case an_take_screenshot an url of
                         Inl e \<Rightarrow> Inl e
                       | Inr png \<Rightarrow>
                           Inr (opt_str (bytes_to_base64 (an_b64encode an) (Some png))))
                      JNull st;
               st = try_analyzer (truthy (dict_get t ''performance''))
                      ''performance'' ''analyze_performance''
                      (an_analyze_performance an url) JNull st;
               st = try_analyzer (truthy (dict_get t ''thumbnails'') \<and> truthy image_urls)
                      ''thumbnails'' ''generate_thumbnails''
                      (case an_generate_thumbnails an image_urls of
                         Inl e \<Rightarrow> Inl e
                       | Inr thumbs \<Rightarrow>
                           Inr (JArr (map JStr (encode_thumbnails (an_b64encode an) thumbs))))
                      (JArr []) st;
               st = try_analyzer (truthy (dict_get t ''tech_stack'') \<and> truthy html)
                      ''tech_stack'' ''detect_technologies''
                      (an_detect_technologies an html) (JArr []) st;
               st = try_analyzer (truthy (dict_get t ''seo'') \<and> truthy html)
                      ''seo'' ''evaluate_seo''
                      (an_evaluate_seo an html scraping_data) (JObj []) st;
               st = try_analyzer (truthy (dict_get t ''structured_data'') \<and> truthy html)
                      ''structured_data'' ''extract_structured_data''
                      (an_extract_structured_data an html) (JArr []) st;
               st = try_analyzer (truthy (dict_get t ''accessibility'') \<and> truthy html)
                      ''accessibility'' ''analyze_accessibility''
                      (an_analyze_accessibility an html) (JObj []) st
           in Inr st)
      | _ \<Rightarrow> Inl (no_get tasks))"

section \<open>The RPC codec (common/protocol.py)\<close>

text \<open>
  \<open>HEADER_STRUCT = struct.Struct("!I")\<close>: an unsigned 32-bit length in network byte
  order. \<open>pack\<close> raises \<open>struct.error\<close> on a number that does not fit.
\<close>

definition HEADER_STRUCT_size :: nat where
  "HEADER_STRUCT_size = 4"

definition HEADER_STRUCT_pack :: "nat \<Rightarrow> exc + byte list" where
  "HEADER_STRUCT_pack n =
     (if n < 2 ^ 32 then
        Inr [of_nat (n div 2 ^ 24), of_nat (n div 2 ^ 16), of_nat (n div 2 ^ 8), of_nat n]
      else Inl (Exc StructError
             ([CHR 0x27] @ ''I'' @ [CHR 0x27] @
              '' format requires 0 <= number <= 4294967295'')))"

fun HEADER_STRUCT_unpack :: "byte list \<Rightarrow> exc + nat" where
  "HEADER_STRUCT_unpack [b3, b2, b1, b0] =
     Inr (unat b3 * 2 ^ 24 + unat b2 * 2 ^ 16 + unat b1 * 2 ^ 8 + unat b0)"
| "HEADER_STRUCT_unpack bs = Inl (Exc StructError ''unpack requires a buffer of 4 bytes'')"

text \<open>
  The JSON library is a parameter: \<open>dumps\<close> stands for
  \<open>json.dumps(payload, separators=(",", ":"), ensure_ascii=False).encode("utf-8")\<close> and
  \<open>loads\<close> for \<open>json.loads(data.decode("utf-8"))\<close>; either can raise.
\<close>

record json_lib =
  dumps :: "json \<Rightarrow> exc + byte list"
  loads :: "byte list \<Rightarrow> exc + json"

text \<open>\<open>send_message\<close> returns the bytes it hands to \<open>sock.sendall\<close>.\<close>

definition send_message :: "json_lib \<Rightarrow> json \<Rightarrow> exc + byte list" where
  "send_message lib payload =
     (case dumps lib payload of
        Inl e \<Rightarrow> Inl e
      | Inr data \<Rightarrow>
          (case HEADER_STRUCT_pack (length data) of
             Inl e \<Rightarrow> Inl e
           | Inr header \<Rightarrow> Inr (header @ data)))"

text \<open>
  A blocking socket, seen from the reader: the segments that are still to arrive, in
  order. \<open>sock.recv(bufsize)\<close> returns at most \<open>bufsize\<close> bytes of the first segment and
  leaves the rest of it for the next call; it returns \<open>b""\<close> once the peer has closed,
  which is when no segment is left (an empty segment reads as a close, too).
\<close>

type_synonym sock = "byte list list"

fun recv :: "nat \<Rightarrow> sock \<Rightarrow> byte list \<times> sock" where
  "recv bufsize [] = ([], [])"
| "recv bufsize (seg # rest) =
     (if length seg \<le> bufsize then (seg, rest)
      else (take bufsize seg, drop bufsize seg # rest))"

definition closed_msg :: string where
  "closed_msg = ''Conexi'' @ [CHR 0xF3] @ ''n cerrada inesperadamente''"

definition invalid_size_msg :: string where
  "invalid_size_msg = ''Tama'' @ [CHR 0xF1] @ ''o de mensaje inv'' @ [CHR 0xE1] @ ''lido''"

text \<open>The loop of \<open>recv_all\<close>, with the chunks read so far.\<close>

function recv_all_loop :: "sock \<Rightarrow> nat \<Rightarrow> byte list list \<Rightarrow> exc + (byte list \<times> sock)" where
  "recv_all_loop s remaining chunks =
     (if remaining > 0 then
        (case recv remaining s of
           (chunk, s') \<Rightarrow>
             if chunk = [] then Inl (Exc ConnectionError closed_msg)
             else recv_all_loop s' (remaining - length chunk) (chunks @ [chunk]))
      else Inr (concat chunks, s))"
  by pat_completeness auto
termination
  by (relation "measure (\<lambda>(s, remaining, chunks). remaining)") auto

definition recv_all :: "sock \<Rightarrow> nat \<Rightarrow> exc + (byte list \<times> sock)" where
  "recv_all s nbytes = recv_all_loop s nbytes []"

text \<open>\<open>recv_message\<close> returns the decoded message and the socket as it leaves it.\<close>

definition recv_message :: "json_lib \<Rightarrow> sock \<Rightarrow> exc + (json \<times> sock)" where
  "recv_message lib s =
     (case recv_all s HEADER_STRUCT_size of
        Inl e \<Rightarrow> Inl e
      | Inr (header_bytes, s1) \<Rightarrow>
          (case HEADER_STRUCT_unpack header_bytes of
             Inl e \<Rightarrow> Inl e
           | Inr len \<Rightarrow>
               if len \<le> 0 \<or> len > 1000000000 then Inl (Exc ValueError invalid_size_msg)
               else
                 (case recv_all s1 len of
                    Inl e \<Rightarrow> Inl e
                  | Inr (data, s2) \<Rightarrow>
                      (case loads lib data of
                         Inl e \<Rightarrow> Inl e
                       | Inr m \<Rightarrow> Inr (m, s2)))))"

section \<open>The processing client (server_scraping.py)\<close>

text \<open>Decimal digits of a number, as \<open>str(n)\<close> and \<open>f"{n}"\<close> print it.\<close>

fun str_of_nat :: "nat \<Rightarrow> string" where
  "str_of_nat n =
     (if n < 10 then [''0123456789'' ! n]
      else str_of_nat (n div 10) @ [''0123456789'' ! (n mod 10)])"

declare str_of_nat.simps [simp del]

text \<open>
  An \<open>asyncio.StreamReader\<close>: the bytes that arrive, and whether the stream then ends
  (EOF) or stalls until the 30 second timeout of \<open>asyncio.wait_for\<close> fires.
\<close>

record stream_reader =
  incoming :: "byte list"
  stalls :: bool

definition readexactly :: "nat \<Rightarrow> stream_reader \<Rightarrow> exc + (byte list \<times> stream_reader)" where
  "readexactly n r =
     (if n \<le> length (incoming r) then
        Inr (take n (incoming r), r\<lparr>incoming := drop n (incoming r)\<rparr>)
      else if stalls r then Inl (Exc TimeoutError [])
      else Inl (Exc IncompleteReadError
             (str_of_nat (length (incoming r)) @ '' bytes read on a total of '' @
              str_of_nat n @ '' expected bytes'')))"

text \<open>
  The second half of \<open>call_processing_server_async\<close>: reading the framed response.
\<close>

definition read_response :: "json_lib \<Rightarrow> stream_reader \<Rightarrow> exc + json" where
  "read_response lib reader =
     (case readexactly 4 reader of
        Inl e \<Rightarrow> Inl e
      | Inr (header_bytes, reader1) \<Rightarrow>
          (case HEADER_STRUCT_unpack header_bytes of
             Inl e \<Rightarrow> Inl e
           | Inr len \<Rightarrow>
               if len \<le> 0 \<or> len > 100000000 then
                 Inl (Exc ValueError (invalid_size_msg @ '': '' @ str_of_nat len))
               else
                 (case readexactly len reader1 of
                    Inl e \<Rightarrow> Inl e
                  | Inr (data_bytes, reader2) \<Rightarrow> loads lib data_bytes)))"

text \<open>
  \<open>call_processing_server_async\<close>, given how the connection attempt ended: the
  exception \<open>open_connection\<close> raised (a refusal, or the timeout), or the reader of
  the connection. The request it writes is framed as \<open>send_message\<close> frames it.
\<close>

definition call_processing_server_async ::
  "json_lib \<Rightarrow> exc + stream_reader \<Rightarrow> json \<Rightarrow> exc + json" where
  "call_processing_server_async lib connection payload =
     (case connection of
        Inl e \<Rightarrow> Inl e
      | Inr reader \<Rightarrow>
          (case dumps lib payload of
             Inl e \<Rightarrow> Inl e
           | Inr data \<Rightarrow>
               (case HEADER_STRUCT_pack (length data) of
                  Inl e \<Rightarrow> Inl e
                | Inr header \<Rightarrow> read_response lib reader)))"

text \<open>
  A small instance of the library, enough to run the codec on: it writes and reads the
  empty object \<open>{}\<close> and refuses everything else.
\<close>

definition example_lib :: json_lib where
  "example_lib =
     \<lparr>dumps = (\<lambda>m. if m = JObj [] then Inr [0x7B, 0x7D]
                    else Inl (Exc TypeError ''Object is not JSON serializable'')),
      loads = (\<lambda>bs. if bs = [0x7B, 0x7D] then Inr (JObj [])
                     else Inl (Exc ValueError ''Expecting value''))\<rparr>"

section \<open>Shared state of the scraping server (server_scraping.py)\<close>

subsection \<open>TaskRecord and TaskManager\<close>

record TaskRecord =
  task_id :: string
  t_url :: string
  t_status :: string
  t_created_at :: time
  t_updated_at :: time
  t_result :: "dict option"
  t_error :: "string option"

text \<open>
  The \<open>_tasks\<close> dict. A missing key raises \<open>KeyError\<close>, whose \<open>str()\<close> is the \<open>repr\<close> of the
  key: in single quotes, or in double quotes when the key has a single quote and no
  double quote, with backslashes and the enclosing quote escaped. (Control characters,
  which \<open>repr\<close> writes as escapes too, are not modelled.)
\<close>

type_synonym TaskManager = "string \<rightharpoonup> TaskRecord"

definition escape_char :: "char \<Rightarrow> char \<Rightarrow> string" where
  "escape_char quote c =
     (if c = CHR 0x5C then [CHR 0x5C, CHR 0x5C]
      else if c = quote then [CHR 0x5C, c]
      else [c])"

definition py_repr :: "string \<Rightarrow> string" where
  "py_repr s =
     (let quote = (if CHR 0x27 \<in> set s \<and> CHR 0x22 \<notin> set s then CHR 0x22 else CHR 0x27)
      in [quote] @ concat (map (escape_char quote) s) @ [quote])"

definition key_error :: "string \<Rightarrow> exc" where
  "key_error k = Exc KeyError (py_repr k)"

text \<open>
  \<open>create_task\<close>: \<open>tid\<close> is the value of \<open>uuid.uuid4().hex\<close> and \<open>now\<close> the clock reading
  of the record's two timestamps.
\<close>

definition TaskManager_create_task ::
  "string \<Rightarrow> time \<Rightarrow> string \<Rightarrow> TaskManager \<Rightarrow> TaskRecord \<times> TaskManager" where
  "TaskManager_create_task tid now url tm =
     (let record = \<lparr>task_id = tid, t_url = url, t_status = ''pending'', t_created_at = now,
                     t_updated_at = now, t_result = None, t_error = None\<rparr>
      in (record, tm(tid \<mapsto> record)))"

definition TaskManager_get :: "string \<Rightarrow> TaskManager \<Rightarrow> TaskRecord option" where
  "TaskManager_get tid tm = tm tid"

definition TaskManager_set_status ::
  "string \<Rightarrow> string \<Rightarrow> string option \<Rightarrow> time \<Rightarrow> TaskManager \<Rightarrow> exc + TaskManager" where
  "TaskManager_set_status tid status error now tm =
     (case tm tid of
        None \<Rightarrow> Inl (key_error tid)
      | Some record \<Rightarrow>
          Inr (tm(tid \<mapsto> record\<lparr>t_status := status, t_updated_at := now, t_error := error\<rparr>)))"

definition TaskManager_set_result ::
  "string \<Rightarrow> dict \<Rightarrow> string \<Rightarrow> time \<Rightarrow> TaskManager \<Rightarrow> exc + TaskManager" where
  "TaskManager_set_result tid result status now tm =
     (case tm tid of
        None \<Rightarrow> Inl (key_error tid)
      | Some record \<Rightarrow>
          Inr (tm(tid \<mapsto> record\<lparr>t_result := Some result, t_status := status,
                                   t_error := None, t_updated_at := now\<rparr>)))"

subsection \<open>ResultCache\<close>

record ResultCache =
  ttl :: int
  entries :: "string \<rightharpoonup> (time \<times> dict)"

definition ResultCache_init :: "int \<Rightarrow> ResultCache" where
  "ResultCache_init ttl_seconds = \<lparr>ttl = ttl_seconds, entries = Map.empty\<rparr>"

definition ResultCache_get :: "string \<Rightarrow> time \<Rightarrow> ResultCache \<Rightarrow> dict option \<times> ResultCache" where
  "ResultCache_get url now c =
     (case entries c url of
        None \<Rightarrow> (None, c)
      | Some (timestamp, data) \<Rightarrow>
          if now - timestamp > of_int (ttl c) then (None, c\<lparr>entries := (entries c)(url := None)\<rparr>)
          else (Some data, c))"

definition ResultCache_set :: "string \<Rightarrow> dict \<Rightarrow> time \<Rightarrow> ResultCache \<Rightarrow> ResultCache" where
  "ResultCache_set url data now c = c\<lparr>entries := (entries c)(url \<mapsto> (now, data))\<rparr>"

text \<open>A sequence of calls on the cache, each with the clock reading it takes.\<close>

datatype cache_op = Get string time | Set string dict time

fun op_time :: "cache_op \<Rightarrow> time" where
  "op_time (Get url now) = now"
| "op_time (Set url data now) = now"

fun sets_url :: "string \<Rightarrow> cache_op \<Rightarrow> bool" where
  "sets_url u (Get url now) = False"
| "sets_url u (Set url data now) = (url = u)"

fun cache_call :: "cache_op \<Rightarrow> ResultCache \<Rightarrow> ResultCache" where
  "cache_call (Get url now) c = snd (ResultCache_get url now c)"
| "cache_call (Set url data now) c = ResultCache_set url data now c"

fun cache_calls :: "cache_op list \<Rightarrow> ResultCache \<Rightarrow> ResultCache" where
  "cache_calls [] c = c"
| "cache_calls (x # xs) c = cache_calls xs (cache_call x c)"

definition example_result :: dict where
  "example_result =
     [(''url'', JStr ''https://example.com''), (''timestamp'', JStr ''2025-01-01T00:00:00Z''),
      (''scraping_data'', JObj example_scraping_data), (''processing_data'', JObj []),
      (''status'', JStr ''partial''),
      (''processing_error'', JStr ''ConnectionRefusedError: connection refused'')]"

subsection \<open>DomainRateLimiter\<close>

record DomainRateLimiter =
  rl_max :: int
  rl_calls :: "string \<rightharpoonup> time list"
  rl_period :: time

definition DomainRateLimiter_init :: "int \<Rightarrow> DomainRateLimiter" where
  "DomainRateLimiter_init max_requests_per_minute =
     \<lparr>rl_max = max_requests_per_minute, rl_calls = Map.empty, rl_period = 60\<rparr>"

text \<open>The \<open>while\<close> loop of \<open>allow\<close>: pop from the left while the oldest entry is too old.\<close>

fun purge :: "time \<Rightarrow> time \<Rightarrow> time list \<Rightarrow> time list" where
  "purge now period [] = []"
| "purge now period (t # bucket) =
     (if now - t > period then purge now period bucket else t # bucket)"

text \<open>\<open>self._calls.setdefault(domain, deque())\<close>, read side.\<close>

definition bucket_of :: "DomainRateLimiter \<Rightarrow> string \<Rightarrow> time list" where
  "bucket_of rl domain = (case rl_calls rl domain of None \<Rightarrow> [] | Some b \<Rightarrow> b)"

definition DomainRateLimiter_allow ::
  "string \<Rightarrow> time \<Rightarrow> DomainRateLimiter \<Rightarrow> bool \<times> DomainRateLimiter" where
  "DomainRateLimiter_allow domain now rl =
     (if rl_max rl \<le> 0 then (True, rl)
      else
        (let bucket = purge now (rl_period rl) (bucket_of rl domain)
         in if int (length bucket) \<ge> rl_max rl then
              (False, rl\<lparr>rl_calls := (rl_calls rl)(domain \<mapsto> bucket)\<rparr>)
            else (True, rl\<lparr>rl_calls := (rl_calls rl)(domain \<mapsto> bucket @ [now])\<rparr>)))"

text \<open>
  The admission rule in the words of the specification: purge every timestamp
  \<open>\<le> now - 60\<close>, reject when \<open>max\<close> or more remain, else append \<open>now\<close> and accept.
\<close>

definition allow_spec :: "string \<Rightarrow> time \<Rightarrow> DomainRateLimiter \<Rightarrow> bool \<times> DomainRateLimiter" where
  "allow_spec domain now rl =
     (if rl_max rl \<le> 0 then (True, rl)
      else
        (let remaining = filter (\<lambda>t. \<not> t \<le> now - 60) (bucket_of rl domain)
         in if int (length remaining) \<ge> rl_max rl then
              (False, rl\<lparr>rl_calls := (rl_calls rl)(domain \<mapsto> remaining)\<rparr>)
            else (True, rl\<lparr>rl_calls := (rl_calls rl)(domain \<mapsto> remaining @ [now])\<rparr>)))"

text \<open>A limiter of one request per minute that admitted \<open>example.com\<close> at time 0.\<close>

definition example_limiter :: DomainRateLimiter where
  "example_limiter = \<lparr>rl_max = 1, rl_calls = [''example.com'' \<mapsto> [0]], rl_period = 60\<rparr>"

section \<open>The processing server's handler (server_processing.py)\<close>

definition error_response :: "string \<Rightarrow> dict" where
  "error_response msg = [(''status'', JStr ''error''), (''error'', JStr msg)]"

text \<open>
  The response \<open>ProcessingTCPHandler.handle\<close> builds, from what \<open>recv_message\<close>
  returned or raised. \<open>payload.get\<close> raises on a payload that is not a dict; the job
  runs in the pool and \<open>future.result()\<close> re-raises what it raised.
\<close>

definition handle_response :: "analyzers \<Rightarrow> exc + json \<Rightarrow> dict" where
  "handle_response an received =
     (case received of
        Inl e \<Rightarrow> error_response (exc_str e)
      | Inr payload \<Rightarrow>
          (case payload of
             JObj p \<Rightarrow>
               (let url = dict_get p ''url'';
                    tasks = dict_get_default p ''tasks'' (JObj []);
                    image_urls = dict_get_default p ''image_urls'' (JArr []);
                    html = dict_get_default p ''html'' (JStr []);
                    scraping_data = dict_get_default p ''scraping_data'' (JObj [])
                in if \<not> truthy url then error_response ''missing url''
                   else
                     (case process_tasks an url tasks image_urls html scraping_data of
                        Inl e \<Rightarrow> error_response (exc_str e)
                      | Inr (result, called) \<Rightarrow>
                          [(''status'', JStr ''success''), (''processing_data'', JObj result)]))
           | v \<Rightarrow> error_response (exc_str (no_get v))))"

text \<open>
  \<open>handle\<close>: the bytes written to the connection. A \<open>send_message\<close> that raises while
  serialising the response lands in the \<open>except\<close> clause, which sends an error response.
\<close>

definition handle :: "json_lib \<Rightarrow> analyzers \<Rightarrow> sock \<Rightarrow> exc + byte list" where
  "handle lib an s =
     (let received = (case recv_message lib s of Inl e \<Rightarrow> Inl e | Inr (payload, s') \<Rightarrow> Inr payload)
      in case send_message lib (JObj (handle_response an received)) of
           Inr frame \<Rightarrow> Inr frame
         | Inl e \<Rightarrow> send_message lib (JObj (error_response (exc_str e))))"

text \<open>The two shapes of response the handler sends.\<close>

definition is_server_response :: "json \<Rightarrow> bool" where
  "is_server_response r =
     (case r of
        JObj d \<Rightarrow>
          (map fst d = [''status'', ''processing_data''] \<and> dict_get d ''status'' = JStr ''success'')
          \<or> (map fst d = [''status'', ''error''] \<and> dict_get d ''status'' = JStr ''error'')
      | _ \<Rightarrow> False)"

section \<open>The scrape pipeline and the HTTP front-end (server_scraping.py)\<close>

text \<open>
  What the front-end takes from its surroundings: the JSON library, \<open>urlparse(url).hostname\<close>,
  the two parsers of the scraper package (BeautifulSoup queries on the fetched page)
  and the formatting of the clock with \<open>strftime("%Y-%m-%dT%H:%M:%SZ")\<close>.
\<close>

record basic_structure =
  bs_title :: string
  bs_links :: "string list"
  bs_structure :: dict
  bs_images_count :: nat
  bs_image_urls :: "string list"

record env =
  json_library :: json_lib
  urlparse_hostname :: "string \<Rightarrow> exc + string option"
  parse_basic_structure :: "string \<Rightarrow> string \<Rightarrow> exc + basic_structure"
  extract_meta_tags :: "string \<Rightarrow> exc + (string \<times> string) list"
  strftime :: "time \<Rightarrow> string"

record config =
  proc_ip :: string
  proc_port :: nat
  workers :: nat
  image_limit :: nat

text \<open>
  A background task is the coroutine \<open>process_scrape_task(app, task_id, url)\<close>. It is
  suspended at one of three places: before it has run at all, in \<open>client.fetch_text\<close>,
  or in \<open>call_processing_server_async\<close>; what it holds there are its local variables.
\<close>

datatype coroutine =
    Scheduled string
  | AwaitFetch string
  | AwaitProcessing string dict json

text \<open>
  The application object. \<open>running_tasks\<close> is keyed by the task id each background
  task was created for.
\<close>

record app =
  app_config :: config
  task_manager :: TaskManager
  cache :: ResultCache
  rate_limiter :: DomainRateLimiter
  running_tasks :: "string \<rightharpoonup> coroutine"

definition build_app :: "config \<Rightarrow> int \<Rightarrow> int \<Rightarrow> app" where
  "build_app cfg rate_limit cache_ttl =
     \<lparr>app_config = cfg, task_manager = Map.empty, cache = ResultCache_init cache_ttl,
      rate_limiter = DomainRateLimiter_init rate_limit, running_tasks = Map.empty\<rparr>"

text \<open>
  The two \<open>except\<close> clauses of \<open>process_scrape_task\<close>, which end the coroutine. A
  \<open>set_status\<close> that raises there escapes the coroutine and changes nothing.
\<close>

definition except_clauses :: "string \<Rightarrow> exc \<Rightarrow> time \<Rightarrow> app \<Rightarrow> app" where
  "except_clauses tid e now a =
     (let a = a\<lparr>running_tasks := (running_tasks a)(tid := None)\<rparr>;
          error = (if exc_type e = TimeoutError then ''Timeout'' else exc_str e)
      in case TaskManager_set_status tid ''failed'' (Some error) now (task_manager a) of
           Inl e' \<Rightarrow> a
         | Inr tm \<Rightarrow> a\<lparr>task_manager := tm\<rparr>)"

text \<open>From the start of the coroutine to the \<open>await\<close> of the fetch.\<close>

definition process_scrape_task_start :: "string \<Rightarrow> string \<Rightarrow> time \<Rightarrow> app \<Rightarrow> app" where
  "process_scrape_task_start tid url now a =
     (case TaskManager_set_status tid ''scraping'' None now (task_manager a) of
        Inl e \<Rightarrow> except_clauses tid e now a
      | Inr tm \<Rightarrow> a\<lparr>task_manager := tm, running_tasks := (running_tasks a)(tid \<mapsto> AwaitFetch url)\<rparr>)"

definition all_tasks :: json where
  "all_tasks =
     JObj [(''screenshot'', JBool True), (''performance'', JBool True),
           (''thumbnails'', JBool True), (''tech_stack'', JBool True), (''seo'', JBool True),
           (''structured_data'', JBool True), (''accessibility'', JBool True)]"

text \<open>
  From the outcome of the fetch (the page, or the exception \<open>fetch_text\<close> raised) to the
  \<open>await\<close> of the processing call.
\<close>

definition process_scrape_task_fetched ::
  "env \<Rightarrow> string \<Rightarrow> string \<Rightarrow> exc + string \<Rightarrow> time \<Rightarrow> app \<Rightarrow> app" where
  "process_scrape_task_fetched ev tid url fetched now a =
     (case fetched of
        Inl e \<Rightarrow> except_clauses tid e now a
      | Inr html \<Rightarrow>
          (case parse_basic_structure ev html url of
             Inl e \<Rightarrow> except_clauses tid e now a
           | Inr basic \<Rightarrow>
               (case extract_meta_tags ev html of
                  Inl e \<Rightarrow> except_clauses tid e now a
                | Inr meta \<Rightarrow>
                    (let scraping_data =
                           [(''title'', JStr (bs_title basic)),
                            (''links'', JArr (map JStr (bs_links basic))),
                            (''meta_tags'', JObj (map (\<lambda>(k, v). (k, JStr v)) meta)),
                            (''structure'', JObj (bs_structure basic)),
                            (''images_count'', JInt (int (bs_images_count basic)))];
                         image_urls = bs_image_urls basic;
                         processing_payload =
                           JObj [(''url'', JStr url),
                                 (''tasks'', all_tasks),
                                 (''image_urls'',
                                    JArr (map JStr (take (image_limit (app_config a)) image_urls))),
                                 (''html'', JStr html),
                                 (''scraping_data'', JObj scraping_data)]
                     in case TaskManager_set_status tid ''processing'' None now (task_manager a) of
                          Inl e \<Rightarrow> except_clauses tid e now a
                        | Inr tm \<Rightarrow>
                            a\<lparr>task_manager := tm,
                              running_tasks := (running_tasks a)
                                (tid \<mapsto> AwaitProcessing url scraping_data processing_payload)\<rparr>))))"

text \<open>
  The response that stands in for the processing server's when the call raised, and
  the merge of scraping data and processing response into the result document.
\<close>

definition processing_failed :: "exc \<Rightarrow> json" where
  "processing_failed exc =
     JObj [(''status'', JStr ''error''),
           (''processing_data'', JObj []),
           (''error'', JStr (class_name (exc_type exc) @ '': '' @ exc_str exc))]"

definition merge_result :: "string \<Rightarrow> string \<Rightarrow> dict \<Rightarrow> dict \<Rightarrow> dict" where
  "merge_result url timestamp scraping_data processing_response =
     (let result =
            [(''url'', JStr url),
             (''timestamp'', JStr timestamp),
             (''scraping_data'', JObj scraping_data),
             (''processing_data'',
                dict_get_default processing_response ''processing_data'' (JObj [])),
             (''status'',
                JStr (if dict_get processing_response ''status'' = JStr ''success''
                      then ''success'' else ''partial''))]
      in if dict_has processing_response ''error''
         then dict_set result ''processing_error'' (dict_get processing_response ''error'')
         else result)"

text \<open>
  From the outcome of the processing call to the end: how the connection attempt to
  the processing server ended decides what \<open>call_processing_server_async\<close> returns or
  raises. A response that is not a dict has no \<open>get\<close>.
\<close>

definition process_scrape_task_processed ::
  "env \<Rightarrow> string \<Rightarrow> string \<Rightarrow> dict \<Rightarrow> json \<Rightarrow> exc + stream_reader \<Rightarrow> time \<Rightarrow> app \<Rightarrow> app" where
  "process_scrape_task_processed ev tid url scraping_data processing_payload connection now a =
     (let processing_response =
            (case call_processing_server_async (json_library ev) connection processing_payload of
               Inr response \<Rightarrow> response
             | Inl exc \<Rightarrow> processing_failed exc)
      in case processing_response of
           JObj response \<Rightarrow>
             (let result = merge_result url (strftime ev now) scraping_data response
              in case TaskManager_set_result tid result ''completed'' now (task_manager a) of
                   Inl e \<Rightarrow> except_clauses tid e now a
                 | Inr tm \<Rightarrow>
                     a\<lparr>task_manager := tm,
                       cache := ResultCache_set url result now (cache a),
                       running_tasks := (running_tasks a)(tid := None)\<rparr>)
         | v \<Rightarrow> except_clauses tid (no_get v) now a)"

text \<open>
  \<open>process_scrape_task\<close> run from start to end with nothing else in between, given the
  outcome of the fetch and of the connection attempt.
\<close>

definition process_scrape_task ::
  "env \<Rightarrow> string \<Rightarrow> string \<Rightarrow> exc + string \<Rightarrow> exc + stream_reader \<Rightarrow> time \<Rightarrow> app \<Rightarrow> app" where
  "process_scrape_task ev tid url fetched connection now a =
     (let a = process_scrape_task_start tid url now a
      in case running_tasks a tid of
           Some (AwaitFetch u) \<Rightarrow>
             (let a = process_scrape_task_fetched ev tid u fetched now a
              in case running_tasks a tid of
                   Some (AwaitProcessing u' scraping_data processing_payload) \<Rightarrow>
                     process_scrape_task_processed ev tid u' scraping_data processing_payload
                       connection now a
                 | _ \<Rightarrow> a)
         | _ \<Rightarrow> a)"

text \<open>An HTTP response made by \<open>web.json_response\<close>: the body and the status code.\<close>

datatype response = json_response dict nat

definition invalid_url_msg :: string where
  "invalid_url_msg = ''URL inv'' @ [CHR 0xE1] @ ''lida''"

text \<open>
  \<open>handle_scrape\<close>, from what \<open>_extract_url\<close> returned: a response, or the URL. \<open>tid\<close> is
  the id \<open>uuid4\<close> draws for the new task. The handler never waits between its steps
  (no lock is ever held across an \<open>await\<close>), and its clock readings are one instant
  \<open>now\<close>. An exception of \<open>urlparse\<close> escapes the handler.
\<close>

definition handle_scrape ::
  "env \<Rightarrow> response + string \<Rightarrow> string \<Rightarrow> time \<Rightarrow> app \<Rightarrow> (exc + response) \<times> app" where
  "handle_scrape ev data tid now a =
     (case data of
        Inl resp \<Rightarrow> (Inr resp, a)
      | Inr url \<Rightarrow>
     (case urlparse_hostname ev url of
        Inl e \<Rightarrow> (Inl e, a)
      | Inr hostname \<Rightarrow>
     (case hostname of
        None \<Rightarrow> (Inr (json_response (error_response invalid_url_msg) 400), a)
      | Some domain \<Rightarrow>
     if domain = [] then (Inr (json_response (error_response invalid_url_msg) 400), a)
     else
     (case DomainRateLimiter_allow domain now (rate_limiter a) of
        (allowed, rl) \<Rightarrow>
     (let a = a\<lparr>rate_limiter := rl\<rparr>
      in if \<not> allowed then
           (Inr (json_response (error_response ''Rate limit excedido para el dominio'') 429), a)
         else
     (case TaskManager_create_task tid now url (task_manager a) of
        (record, tm) \<Rightarrow>
     (case ResultCache_get url now (cache a) of
        (cached, c) \<Rightarrow>
     (let a = a\<lparr>task_manager := tm, cache := c\<rparr>;
          scheduled =
            (Inr (json_response [(''task_id'', JStr tid), (''status'', JStr (t_status record))]
                    202),
             a\<lparr>running_tasks := (running_tasks a)(tid \<mapsto> Scheduled url)\<rparr>)
      in case cached of
           None \<Rightarrow> scheduled
         | Some hit \<Rightarrow>
             if hit = [] then scheduled
             else
               (case TaskManager_set_result tid hit ''completed'' now (task_manager a) of
                  Inl e \<Rightarrow> (Inl e, a)
                | Inr tm' \<Rightarrow>
                    (Inr (json_response
                            [(''task_id'', JStr tid), (''status'', JStr ''completed''),
                             (''cached'', JBool True)] 200),
                     a\<lparr>task_manager := tm'\<rparr>))))))))))"

section \<open>Runs of the scraping server\<close>

text \<open>
  What happens to the application, one event at a time: a \<open>/scrape\<close> request is
  handled, or the event loop resumes a background task, at its start, with the
  outcome of its fetch, or with the outcome of its connection to the processing
  server. An event for a task that is not waiting for it does nothing.
\<close>

datatype event =
    Request "response + string" string time
  | Start string time
  | Fetched string "exc + string" time
  | Processed string "exc + stream_reader" time

fun fire :: "env \<Rightarrow> event \<Rightarrow> app \<Rightarrow> app" where
  "fire ev (Request data tid now) a = snd (handle_scrape ev data tid now a)"
| "fire ev (Start tid now) a =
     (case running_tasks a tid of
        Some (Scheduled url) \<Rightarrow> process_scrape_task_start tid url now a
      | _ \<Rightarrow> a)"
| "fire ev (Fetched tid fetched now) a =
     (case running_tasks a tid of
        Some (AwaitFetch url) \<Rightarrow> process_scrape_task_fetched ev tid url fetched now a
      | _ \<Rightarrow> a)"
| "fire ev (Processed tid connection now) a =
     (case running_tasks a tid of
        Some (AwaitProcessing url scraping_data processing_payload) \<Rightarrow>
          process_scrape_task_processed ev tid url scraping_data processing_payload
            connection now a
      | _ \<Rightarrow> a)"

fun run :: "env \<Rightarrow> event list \<Rightarrow> app \<Rightarrow> app" where
  "run ev [] a = a"
| "run ev (e # es) a = run ev es (fire ev e a)"

text \<open>\<open>uuid4\<close> does not draw an id twice: a request's task id is new to the task manager.\<close>

fun fresh :: "event \<Rightarrow> app \<Rightarrow> bool" where
  "fresh (Request data tid now) a = (task_manager a tid = None)"
| "fresh e a = True"

text \<open>
  A response is consistent when it is a dict that has \<open>status = "success"\<close> exactly when
  it has no \<open>error\<close> key, as both shapes of response of the processing server are. A
  response that is not a dict has no \<open>get\<close> and fails the task.
\<close>

definition consistent_response :: "json \<Rightarrow> bool" where
  "consistent_response r =
     (case r of
        JObj d \<Rightarrow> (dict_get d ''status'' = JStr ''success'') \<noteq> dict_has d ''error''
      | _ \<Rightarrow> True)"

text \<open>The processing call of an event, where it returns, returns a consistent response.\<close>

fun reply_consistent :: "env \<Rightarrow> event \<Rightarrow> app \<Rightarrow> bool" where
  "reply_consistent ev (Processed tid connection now) a =
     (case running_tasks a tid of
        Some (AwaitProcessing url scraping_data processing_payload) \<Rightarrow>
          (case call_processing_server_async (json_library ev) connection processing_payload of
             Inl e \<Rightarrow> True
           | Inr r \<Rightarrow> consistent_response r)
      | _ \<Rightarrow> True)"
| "reply_consistent ev e a = True"

definition admissible :: "env \<Rightarrow> event \<Rightarrow> app \<Rightarrow> bool" where
  "admissible ev e a = (fresh e a \<and> reply_consistent ev e a)"

text \<open>A condition on events that holds of each event of a run in the state it fires in.\<close>

fun along :: "(event \<Rightarrow> app \<Rightarrow> bool) \<Rightarrow> env \<Rightarrow> event list \<Rightarrow> app \<Rightarrow> bool" where
  "along P ev [] a = True"
| "along P ev (e # es) a = (P e a \<and> along P ev es (fire ev e a))"

text \<open>Calls on the task manager alone, in any order.\<close>

datatype tm_op =
    CreateTask string time string
  | SetStatus string string "string option" time
  | SetResult string dict string time

fun tm_call :: "tm_op \<Rightarrow> TaskManager \<Rightarrow> TaskManager" where
  "tm_call (CreateTask tid now url) tm = snd (TaskManager_create_task tid now url tm)"
| "tm_call (SetStatus tid status error now) tm =
     (case TaskManager_set_status tid status error now tm of Inl e \<Rightarrow> tm | Inr tm' \<Rightarrow> tm')"
| "tm_call (SetResult tid result status now) tm =
     (case TaskManager_set_result tid result status now tm of Inl e \<Rightarrow> tm | Inr tm' \<Rightarrow> tm')"

fun tm_calls :: "tm_op list \<Rightarrow> TaskManager \<Rightarrow> TaskManager" where
  "tm_calls [] tm = tm"
| "tm_calls (x # xs) tm = tm_calls xs (tm_call x tm)"

text \<open>The two invariants of a task record, and what a result document promises.\<close>

definition record_ok :: "TaskRecord \<Rightarrow> bool" where
  "record_ok r =
     ((t_status r = ''completed'' \<longrightarrow> t_result r \<noteq> None \<and> t_error r = None) \<and>
      (t_status r = ''failed'' \<longrightarrow> t_result r = None \<and> t_error r \<noteq> None))"

definition status_ok :: "dict \<Rightarrow> bool" where
  "status_ok r =
     (dict_get r ''status'' = JStr ''success'' \<or> dict_get r ''status'' = JStr ''partial'')"

definition result_ok :: "dict \<Rightarrow> bool" where
  "result_ok r =
     (status_ok r \<and>
      (dict_get r ''status'' = JStr ''partial'' \<longleftrightarrow> dict_has r ''processing_error''))"

text \<open>
  The state of the application that the proofs carry along a run: every record
  satisfies the two invariants and every background task belongs to a record without
  a result; every result held by a record or by the cache has a given property.
\<close>

definition app_inv :: "app \<Rightarrow> bool" where
  "app_inv a =
     ((\<forall>tid r. task_manager a tid = Some r \<longrightarrow> record_ok r) \<and>
      (\<forall>tid co. running_tasks a tid = Some co \<longrightarrow>
         (\<exists>r. task_manager a tid = Some r \<and> t_result r = None)))"

definition results_all :: "(dict \<Rightarrow> bool) \<Rightarrow> app \<Rightarrow> bool" where
  "results_all P a =
     ((\<forall>tid r d. task_manager a tid = Some r \<and> t_result r = Some d \<longrightarrow> P d) \<and>
      (\<forall>url t d. entries (cache a) url = Some (t, d) \<longrightarrow> P d))"

text \<open>A concrete setting to run the server in.\<close>

definition example_env :: env where
  "example_env =
     \<lparr>json_library = example_lib,
      urlparse_hostname = (\<lambda>url. Inr (if url = ''https://example.com'' then Some ''example.com''
                                       else None)),
      parse_basic_structure = (\<lambda>html base_url.
         Inr \<lparr>bs_title = ''Example title for SEO'', bs_links = [],
              bs_structure = [(''h1'', JInt 1), (''h2'', JInt 0), (''h3'', JInt 0),
                              (''h4'', JInt 0), (''h5'', JInt 0), (''h6'', JInt 0)],
              bs_images_count = 0, bs_image_urls = []\<rparr>),
      extract_meta_tags = (\<lambda>html. Inr [(''description'', example_description),
                                        (''og:title'', ''Open Graph Title'')]),
      strftime = (\<lambda>t. ''2025-01-01T00:00:00Z'')\<rparr>"

definition example_config :: config where
  "example_config = \<lparr>proc_ip = ''127.0.0.1'', proc_port = 9001, workers = 4, image_limit = 3\<rparr>"

text \<open>
  One task from request to result, with the processing server unreachable: the
  request, the start of the background task, the page fetched, the connection refused.
\<close>

definition example_start :: "event list" where
  "example_start = [Request (Inr ''https://example.com'') ''t1'' 0, Start ''t1'' 1]"

definition example_fetch :: "event list" where
  "example_fetch = example_start @ [Fetched ''t1'' (Inr ''<html></html>'') 2]"

definition refused :: "exc + stream_reader" where
  "refused = Inl (Exc (OtherException ''ConnectionRefusedError'') ''connection refused'')"

definition example_app :: app where
  "example_app = build_app example_config 5 3600"

text \<open>
  The application with a result for \<open>https://example.com\<close> cached at time 0, under a
  limit of one request per minute, \<open>example.com\<close> having been admitted at time 0.
\<close>

definition cached_app :: app where
  "cached_app = example_app\<lparr>cache := ResultCache_set ''https://example.com'' example_result 0
                                       (cache example_app),
                            rate_limiter := example_limiter\<rparr>"

text \<open>
  The client side of one processing call that is answered: a stand-in for the JSON
  library that writes every request as \<open>{}\<close> and reads the body of the response as
  \<open>r\<close>, and a connection on which a frame of two bytes arrives.
\<close>

definition lib_reading :: "json \<Rightarrow> json_lib" where
  "lib_reading r = \<lparr>dumps = (\<lambda>m. Inr [0x7B, 0x7D]), loads = (\<lambda>bs. Inr r)\<rparr>"

definition reading_env :: "json \<Rightarrow> env" where
  "reading_env r = example_env\<lparr>json_library := lib_reading r\<rparr>"

definition answered :: "exc + stream_reader" where
  "answered = Inr \<lparr>incoming = [0, 0, 0, 2, 0x7B, 0x7D], stalls = False\<rparr>"

text \<open>
  A response of the processing server, the result made of it, and a response that
  says \<open>success\<close> and carries an \<open>error\<close>, with the result made of it.
\<close>

definition success_reply :: dict where
  "success_reply = [(''status'', JStr ''success''), (''processing_data'', JObj [])]"

definition success_result :: dict where
  "success_result =
     [(''url'', JStr ''https://example.com''), (''timestamp'', JStr ''2025-01-01T00:00:00Z''),
      (''scraping_data'', JObj example_scraping_data), (''processing_data'', JObj []),
      (''status'', JStr ''success'')]"

definition odd_reply :: dict where
  "odd_reply = [(''status'', JStr ''success''), (''error'', JStr ''x'')]"

definition odd_result :: dict where
  "odd_result =
     [(''url'', JStr ''https://example.com''), (''timestamp'', JStr ''2025-01-01T00:00:00Z''),
      (''scraping_data'', JObj example_scraping_data), (''processing_data'', JObj []),
      (''status'', JStr ''success''), (''processing_error'', JStr ''x'')]"

section \<open>Properties\<close>

subsection \<open>Dictionaries and analyzers\<close>

lemma dict_get_set: "dict_get (dict_set d k v) k' = (if k' = k then v else dict_get d k')"
  by (induction d) (auto simp: dict_get_def dict_get_default_def)

lemma try_analyzer_get_other:
  "k' \<noteq> k \<Longrightarrow> dict_get (fst (try_analyzer g k n r d st)) k' = dict_get (fst st) k'"
  by (simp add: try_analyzer_def dict_get_set)

lemma try_analyzer_called_other:
  "n' \<noteq> n \<Longrightarrow> n' \<in> set (snd (try_analyzer g k n r d st)) \<longleftrightarrow> n' \<in> set (snd st)"
  by (simp add: try_analyzer_def)

lemma try_analyzer_skip: "try_analyzer False k n r d st = st"
  by (simp add: try_analyzer_def)

lemma process_tasks_empty_html:
  "\<exists>out called.
     process_tasks an url (JObj t) image_urls (JStr []) scraping_data = Inr (out, called) \<and>
     dict_get out ''tech_stack'' = JArr [] \<and> dict_get out ''seo'' = JObj [] \<and>
     dict_get out ''structured_data'' = JArr [] \<and> dict_get out ''accessibility'' = JObj [] \<and>
     ''detect_technologies'' \<notin> set called \<and> ''evaluate_seo'' \<notin> set called \<and>
     ''extract_structured_data'' \<notin> set called \<and> ''analyze_accessibility'' \<notin> set called"
proof -
  obtain st where run: "process_tasks an url (JObj t) image_urls (JStr []) scraping_data = Inr st"
    and get: "\<And>k. k \<noteq> ''screenshot'' \<Longrightarrow> k \<noteq> ''performance'' \<Longrightarrow> k \<noteq> ''thumbnails'' \<Longrightarrow>
       dict_get (fst st) k =
         dict_get [(''screenshot'', JNull), (''performance'', JNull),
                   (''thumbnails'', JArr []), (''tech_stack'', JArr []), (''seo'', JObj []),
                   (''structured_data'', JArr []), (''accessibility'', JObj [])] k"
    and called: "\<And>n. n \<noteq> ''take_screenshot'' \<Longrightarrow> n \<noteq> ''analyze_performance'' \<Longrightarrow>
       n \<noteq> ''generate_thumbnails'' \<Longrightarrow> n \<notin> set (snd st)"
    by (simp add: process_tasks_def Let_def try_analyzer_skip try_analyzer_get_other
        try_analyzer_called_other)
  have "dict_get (fst st) ''tech_stack'' = JArr []" "dict_get (fst st) ''seo'' = JObj []"
    "dict_get (fst st) ''structured_data'' = JArr []"
    "dict_get (fst st) ''accessibility'' = JObj []"
    by (simp_all add: get) (simp_all add: dict_get_def dict_get_default_def)
  moreover have "''detect_technologies'' \<notin> set (snd st)" "''evaluate_seo'' \<notin> set (snd st)"
    "''extract_structured_data'' \<notin> set (snd st)" "''analyze_accessibility'' \<notin> set (snd st)"
    by (simp_all add: called)
  ultimately show ?thesis using run by (cases st) simp
qed

lemma process_tasks_no_images:
  "\<exists>out called.
     process_tasks an url (JObj t) (JArr []) html scraping_data = Inr (out, called) \<and>
     dict_get out ''thumbnails'' = JArr [] \<and> ''generate_thumbnails'' \<notin> set called"
proof -
  obtain st where run: "process_tasks an url (JObj t) (JArr []) html scraping_data = Inr st"
    and get: "dict_get (fst st) ''thumbnails'' =
         dict_get [(''screenshot'', JNull), (''performance'', JNull),
                   (''thumbnails'', JArr []), (''tech_stack'', JArr []), (''seo'', JObj []),
                   (''structured_data'', JArr []), (''accessibility'', JObj [])] ''thumbnails''"
    and called: "''generate_thumbnails'' \<notin> set (snd st)"
    by (simp add: process_tasks_def Let_def try_analyzer_skip try_analyzer_get_other
        try_analyzer_called_other)
  have "dict_get (fst st) ''thumbnails'' = JArr []"
    by (simp add: get) (simp add: dict_get_def dict_get_default_def)
  then show ?thesis using run called by (cases st) simp
qed

subsection \<open>SEO scoring\<close>










subsection \<open>Analyzer dispatch\<close>

text \<open>
  Claim C10. When \<open>html\<close> is the empty string, \<open>process_tasks\<close> does not call the
  tech_stack, seo, structured_data and accessibility analyzers, whatever the task
  flags, and those fields of the response keep their neutral values \<open>[]\<close>, \<open>{}\<close>,
  \<open>[]\<close>, \<open>{}\<close>; when \<open>image_urls\<close> is empty, the thumbnail generator is not called and
  \<open>thumbnails\<close> stays \<open>[]\<close>.
\<close>

theorem process_tasks_skips:
  "(\<exists>out called.
      process_tasks an url (JObj t) image_urls (JStr []) scraping_data = Inr (out, called) \<and>
      dict_get out ''tech_stack'' = JArr [] \<and> dict_get out ''seo'' = JObj [] \<and>
      dict_get out ''structured_data'' = JArr [] \<and> dict_get out ''accessibility'' = JObj [] \<and>
      ''detect_technologies'' \<notin> set called \<and> ''evaluate_seo'' \<notin> set called \<and>
      ''extract_structured_data'' \<notin> set called \<and> ''analyze_accessibility'' \<notin> set called)
   \<and> (\<exists>out called.
      process_tasks an url (JObj t) (JArr []) html scraping_data = Inr (out, called) \<and>
      dict_get out ''thumbnails'' = JArr [] \<and> ''generate_thumbnails'' \<notin> set called)"
  using process_tasks_empty_html process_tasks_no_images by (intro conjI)

subsection \<open>The RPC codec\<close>

lemma recv_all_loop_done: "recv_all_loop s 0 chunks = Inr (concat chunks, s)"
  by simp

lemma recv_all_loop_step:
  "0 < n \<Longrightarrow> recv_all_loop s n chunks =
     (case recv n s of (chunk, s') \<Rightarrow>
        if chunk = [] then Inl (Exc ConnectionError closed_msg)
        else recv_all_loop s' (n - length chunk) (chunks @ [chunk]))"
  by (subst recv_all_loop.simps) simp

lemma recv_all_loop_reads:
  "[] \<notin> set segs \<Longrightarrow> n \<le> length (concat segs) \<Longrightarrow>
     \<exists>segs'. recv_all_loop (segs @ rest) n chunks =
                Inr (concat chunks @ take n (concat segs), segs' @ rest) \<and>
              concat segs' = drop n (concat segs) \<and> [] \<notin> set segs'"
proof (induction n arbitrary: segs chunks rule: less_induct)
  case (less n)
  show ?case
  proof (cases "n = 0")
    case True
    with less.prems show ?thesis by (auto simp: recv_all_loop_done)
  next
    case False
    then obtain seg segs0 where segs: "segs = seg # segs0"
      using less.prems by (cases segs) auto
    have seg: "seg \<noteq> []" using less.prems segs by auto
    show ?thesis
    proof (cases "length seg \<le> n")
      case True
      have "\<exists>segs'. recv_all_loop (segs0 @ rest) (n - length seg) (chunks @ [seg]) =
                Inr (concat (chunks @ [seg]) @ take (n - length seg) (concat segs0), segs' @ rest) \<and>
              concat segs' = drop (n - length seg) (concat segs0) \<and> [] \<notin> set segs'"
        using less.prems segs seg True False by (intro less.IH) auto
      then show ?thesis
        using False True seg segs by (auto simp: recv_all_loop_step)
    next
      case long: False
      have "\<exists>segs'. recv_all_loop ((drop n seg # segs0) @ rest) (n - length (take n seg)) (chunks @ [take n seg]) =
                Inr (concat (chunks @ [take n seg]) @ take (n - length (take n seg)) (concat (drop n seg # segs0)), segs' @ rest) \<and>
              concat segs' = drop (n - length (take n seg)) (concat (drop n seg # segs0)) \<and> [] \<notin> set segs'"
        using less.prems segs seg long False by (intro less.IH) auto
      then show ?thesis
        using False long seg segs by (auto simp: recv_all_loop_step)
    qed
  qed
qed

lemma recv_all_loop_closed:
  "[] \<notin> set s \<Longrightarrow> length (concat s) < n \<Longrightarrow>
     recv_all_loop s n chunks = Inl (Exc ConnectionError closed_msg)"
proof (induction s arbitrary: n chunks)
  case Nil
  then show ?case by (simp add: recv_all_loop_step)
next
  case (Cons seg s)
  then show ?case by (simp add: recv_all_loop_step)
qed

lemma unat_byte: "unat (of_nat k :: byte) = k mod 256"
  by (simp add: unat_of_nat)

lemma split_u32:
  fixes n :: nat
  assumes "n < 2 ^ 32"
  shows "(n div 2 ^ 24) mod 256 * 2 ^ 24 + (n div 2 ^ 16) mod 256 * 2 ^ 16 +
         (n div 2 ^ 8) mod 256 * 2 ^ 8 + n mod 256 = n"
proof -
  define a where "a = n div 256"
  define b where "b = a div 256"
  define c where "c = b div 256"
  have n: "n = a * 256 + n mod 256" by (simp add: a_def)
  have a: "a = b * 256 + a mod 256" by (simp add: b_def)
  have b: "b = c * 256 + b mod 256" by (simp add: c_def)
  have c: "c < 256" using assms by (simp add: a_def b_def c_def div_mult2_eq less_mult_imp_div_less)
  have d16: "n div 65536 = b" by (simp add: a_def b_def div_mult2_eq)
  have d24: "n div 16777216 = c" by (simp add: a_def b_def c_def div_mult2_eq)
  have d8: "n div 256 = a" by (simp add: a_def)
  have "c * 2 ^ 24 + b mod 256 * 2 ^ 16 + a mod 256 * 2 ^ 8 + n mod 256 = n"
    using n a b by simp
  then show ?thesis using c by (simp add: d16 d24 d8)
qed

lemma unpack_pack:
  "n < 2 ^ 32 \<Longrightarrow> \<exists>h. HEADER_STRUCT_pack n = Inr h \<and> length h = 4 \<and> HEADER_STRUCT_unpack h = Inr n"
  using split_u32 [of n] by (simp add: HEADER_STRUCT_pack_def unat_byte)

lemma unpack_bound:
  assumes "HEADER_STRUCT_unpack h = Inr n"
  shows "n < 2 ^ 32"
proof -
  obtain b3 b2 b1 b0 where h: "h = [b3, b2, b1, b0]"
    using assms by (auto elim: HEADER_STRUCT_unpack.elims)
  have "unat b3 < 256" "unat b2 < 256" "unat b1 < 256" "unat b0 < 256"
    using unsigned_less [of b3] unsigned_less [of b2] unsigned_less [of b1] unsigned_less [of b0]
    by simp_all
  then show ?thesis using assms h by simp
qed

lemma unpack_length:
  "HEADER_STRUCT_unpack h = Inr n \<Longrightarrow> length h = 4"
  by (auto elim: HEADER_STRUCT_unpack.elims)

lemma unpack_example: "HEADER_STRUCT_unpack [0x05, 0xF5, 0xE1, 0x01] = Inr 100000001"
  by simp

lemma recv_all_whole:
  "seg \<noteq> [] \<Longrightarrow> length seg = n \<Longrightarrow> recv_all (seg # rest) n = Inr (seg, rest)"
  by (auto simp: recv_all_def recv_all_loop_step)

lemma recv_all_reads:
  "[] \<notin> set segs \<Longrightarrow> n \<le> length (concat segs) \<Longrightarrow>
     \<exists>segs'. recv_all (segs @ rest) n = Inr (take n (concat segs), segs' @ rest) \<and>
              concat segs' = drop n (concat segs) \<and> [] \<notin> set segs'"
  using recv_all_loop_reads [of segs n rest "[]"] by (simp add: recv_all_def)

lemma concat_empty_segments: "concat segs = [] \<Longrightarrow> [] \<notin> set segs \<Longrightarrow> segs = []"
  by (cases segs) auto

lemma recv_message_frame:
  assumes frame: "concat segs = h @ data" "[] \<notin> set segs"
    and h: "length h = 4" "HEADER_STRUCT_unpack h = Inr (length data)"
    and len: "0 < length data" "length data \<le> 1000000000"
  shows "recv_message lib (segs @ rest) =
           (case loads lib data of Inl e \<Rightarrow> Inl e | Inr m \<Rightarrow> Inr (m, rest))"
proof -
  obtain segs1 where r1: "recv_all (segs @ rest) 4 = Inr (take 4 (concat segs), segs1 @ rest)"
    and c1: "concat segs1 = drop 4 (concat segs)" and e1: "[] \<notin> set segs1"
    using recv_all_reads [of segs 4 rest] frame h by auto
  have hd: "take 4 (concat segs) = h" and c1': "concat segs1 = data"
    using frame h c1 by simp_all
  obtain segs2 where r2: "recv_all (segs1 @ rest) (length data) =
      Inr (take (length data) (concat segs1), segs2 @ rest)"
    and c2: "concat segs2 = drop (length data) (concat segs1)" and e2: "[] \<notin> set segs2"
    using recv_all_reads [of segs1 "length data" rest] e1 c1' by auto
  have "segs2 = []" using c2 c1' e2 by (simp add: concat_empty_segments)
  then show ?thesis
    using r1 r2 hd c1' h len by (simp add: recv_message_def HEADER_STRUCT_size_def)
qed

lemma read_response_frame:
  assumes h: "length h = 4" "HEADER_STRUCT_unpack h = Inr (length data)"
    and len: "0 < length data" "length data \<le> 100000000"
  shows "read_response lib \<lparr>incoming = h @ data @ extra, stalls = st\<rparr> = loads lib data"
  using assms by (simp add: read_response_def readexactly_def)

text \<open>
  Claim C8. Round trip of the codec: for a message \<open>m\<close> that the JSON library
  serialises to \<open>data\<close> and reads back from \<open>data\<close>, with \<open>data\<close> of at most
  100_000_000 bytes, \<open>send_message\<close> writes a frame (4-byte big-endian length, then
  the body) from which \<open>recv_message\<close> returns \<open>m\<close>, however the frame is cut into
  segments on the way, leaving what follows the frame unread; the client's reader
  returns \<open>m\<close> from the same frame.
\<close>

theorem rpc_roundtrip:
  assumes "dumps lib m = Inr data" and "loads lib data = Inr m"
    and "data \<noteq> []" and "length data \<le> 100000000"
  shows "\<exists>frame. send_message lib m = Inr frame \<and>
           (\<forall>segs rest. concat segs = frame \<and> [] \<notin> set segs \<longrightarrow>
              recv_message lib (segs @ rest) = Inr (m, rest)) \<and>
           (\<forall>extra st. read_response lib \<lparr>incoming = frame @ extra, stalls = st\<rparr> = Inr m)"
proof -
  have "length data < 2 ^ 32" using assms(4) by simp
  then obtain h where h: "HEADER_STRUCT_pack (length data) = Inr h" "length h = 4"
    "HEADER_STRUCT_unpack h = Inr (length data)"
    using unpack_pack by blast
  have send: "send_message lib m = Inr (h @ data)"
    using assms(1) h(1) by (simp add: send_message_def)
  have "recv_message lib (segs @ rest) = Inr (m, rest)"
    if "concat segs = h @ data" "[] \<notin> set segs" for segs rest
    using recv_message_frame [OF that h(2,3), of lib rest] assms by simp
  moreover have "read_response lib \<lparr>incoming = (h @ data) @ extra, stalls = st\<rparr> = Inr m" for extra st
    using read_response_frame [OF h(2,3), of lib extra st] assms by simp
  ultimately show ?thesis using send by blast
qed

lemma recv_message_length_check:
  assumes "recv_all s HEADER_STRUCT_size = Inr (h, s1)" and "HEADER_STRUCT_unpack h = Inr len"
  shows "recv_message lib s =
           (if len = 0 \<or> 1000000000 < len then Inl (Exc ValueError invalid_size_msg)
            else case recv_all s1 len of
                   Inl e \<Rightarrow> Inl e
                 | Inr (data, s2) \<Rightarrow>
                     (case loads lib data of Inl e \<Rightarrow> Inl e | Inr m \<Rightarrow> Inr (m, s2)))"
  using assms by (simp add: recv_message_def)

lemma read_response_length_check:
  assumes "length h = 4" and "HEADER_STRUCT_unpack h = Inr len"
  shows "read_response lib \<lparr>incoming = h @ body, stalls = st\<rparr> =
           (if len = 0 \<or> 100000000 < len then
              Inl (Exc ValueError (invalid_size_msg @ '': '' @ str_of_nat len))
            else if len \<le> length body then loads lib (take len body)
            else if st then Inl (Exc TimeoutError [])
            else Inl (Exc IncompleteReadError
                   (str_of_nat (length body) @ '' bytes read on a total of '' @
                    str_of_nat len @ '' expected bytes'')))"
  using assms by (simp add: read_response_def readexactly_def)

theorem rpc_roundtrip_witness:
  "dumps example_lib (JObj []) = Inr [0x7B, 0x7D] \<and>
   loads example_lib [0x7B, 0x7D] = Inr (JObj []) \<and>
   send_message example_lib (JObj []) = Inr [0, 0, 0, 2, 0x7B, 0x7D] \<and>
   recv_message example_lib [[0, 0], [0, 2, 0x7B], [0x7D]] = Inr (JObj [], []) \<and>
   read_response example_lib \<lparr>incoming = [0, 0, 0, 2, 0x7B, 0x7D], stalls = False\<rparr> = Inr (JObj [])"
proof -
  have d: "dumps example_lib (JObj []) = Inr [0x7B, 0x7D]"
    and l: "loads example_lib [0x7B, 0x7D] = Inr (JObj [])"
    by (simp_all add: example_lib_def)
  have s: "send_message example_lib (JObj []) = Inr [0, 0, 0, 2, 0x7B, 0x7D]"
    by (simp add: send_message_def HEADER_STRUCT_pack_def d)
  from rpc_roundtrip [OF d l] s
  have r: "\<And>segs rest. concat segs = [0, 0, 0, 2, 0x7B, 0x7D] \<Longrightarrow> [] \<notin> set segs \<Longrightarrow>
              recv_message example_lib (segs @ rest) = Inr (JObj [], rest)"
    and c: "\<And>extra st. read_response example_lib
              \<lparr>incoming = [0, 0, 0, 2, 0x7B, 0x7D] @ extra, stalls = st\<rparr> = Inr (JObj [])"
    by auto
  have "recv_message example_lib ([[0, 0], [0, 2, 0x7B], [0x7D]] @ []) = Inr (JObj [], [])"
    by (rule r) simp_all
  moreover have "read_response example_lib
      \<lparr>incoming = [0, 0, 0, 2, 0x7B, 0x7D] @ [], stalls = False\<rparr> = Inr (JObj [])"
    by (rule c)
  ultimately show ?thesis using d l s by simp
qed

text \<open>
  Claim C1. The decoder rejects a frame exactly when its length \<open>L\<close> is 0 or above
  100_000_000. The client's decoder does; \<open>recv_message\<close>, the server's, rejects only
  above 1_000_000_000: a frame of length 100_000_001 is read in full and handed to
  the JSON parser by \<open>recv_message\<close>, and refused by the client's decoder.
\<close>

theorem recv_message_accepts_oversized:
  "recv_message lib [[0x05, 0xF5, 0xE1, 0x01], replicate 100000001 0] =
     (case loads lib (replicate 100000001 0) of Inl e \<Rightarrow> Inl e | Inr m \<Rightarrow> Inr (m, []))
   \<and> read_response lib
       \<lparr>incoming = [0x05, 0xF5, 0xE1, 0x01] @ replicate 100000001 0, stalls = False\<rparr> =
     Inl (Exc ValueError (invalid_size_msg @ '': 100000001''))"
proof
  have hdr: "recv_all ([0x05, 0xF5, 0xE1, 0x01] # [replicate 100000001 0]) 4
      = Inr ([0x05, 0xF5, 0xE1, 0x01], [replicate 100000001 (0::byte)])"
    by (rule recv_all_whole) simp_all
  have body: "recv_all [replicate 100000001 (0::byte)] 100000001 = Inr (replicate 100000001 0, [])"
    by (rule recv_all_whole) simp_all
  show "recv_message lib [[0x05, 0xF5, 0xE1, 0x01], replicate 100000001 0] =
     (case loads lib (replicate 100000001 0) of Inl e \<Rightarrow> Inl e | Inr m \<Rightarrow> Inr (m, []))"
    by (simp add: recv_message_def HEADER_STRUCT_size_def hdr body)
  have str: "str_of_nat 100000001 = ''100000001''"
    by (simp add: str_of_nat.simps)
  show "read_response lib
       \<lparr>incoming = [0x05, 0xF5, 0xE1, 0x01] @ replicate 100000001 0, stalls = False\<rparr> =
     Inl (Exc ValueError (invalid_size_msg @ '': 100000001''))"
    by (subst read_response_length_check [where len = 100000001]) (simp_all add: str)
qed

subsection \<open>The rate limiter\<close>

lemma purge_sorted:
  "sorted bucket \<Longrightarrow> purge now p bucket = filter (\<lambda>t. now - p \<le> t) bucket"
proof (induction bucket)
  case Nil
  then show ?case by simp
next
  case (Cons t bucket)
  show ?case
  proof (cases "now - t > p")
    case True
    with Cons show ?thesis by auto
  next
    case False
    then have "\<forall>x \<in> set bucket. now - p \<le> x" using Cons.prems by fastforce
    then have "filter (\<lambda>t. now - p \<le> t) bucket = bucket" by (simp add: filter_id_conv)
    with False show ?thesis by auto
  qed
qed

lemma purge_dropWhile: "purge now p bucket = dropWhile (\<lambda>t. now - t > p) bucket"
  by (induction bucket) auto

lemma allow_keeps_sorted:
  assumes "sorted (bucket_of rl d)" and "\<forall>t \<in> set (bucket_of rl d). t \<le> now"
  shows "sorted (bucket_of (snd (DomainRateLimiter_allow d now rl)) d) \<and>
         (\<forall>t \<in> set (bucket_of (snd (DomainRateLimiter_allow d now rl)) d). t \<le> now)"
proof -
  have s: "sorted (dropWhile (\<lambda>t. now - t > rl_period rl) (bucket_of rl d))"
    using assms(1) by (rule sorted_dropWhile)
  have m: "\<forall>t \<in> set (dropWhile (\<lambda>t. now - t > rl_period rl) (bucket_of rl d)). t \<le> now"
    using assms(2) by (meson set_dropWhileD)
  show ?thesis
    using assms s m
    by (auto simp: DomainRateLimiter_allow_def Let_def bucket_of_def purge_dropWhile
        sorted_append)
qed

text \<open>
  Claim C2, amended. With \<open>max \<le> 0\<close>, \<open>allow\<close> returns true and leaves the limiter as
  it is. Otherwise, on a bucket in ascending order (the order in which a clock that
  does not run backwards fills it), \<open>allow\<close> purges the timestamps \<open>t < now - 60\<close>,
  keeping one that is exactly 60 seconds old; it returns false, leaving the purged
  bucket, iff \<open>max\<close> or more remain, and otherwise appends \<open>now\<close> and returns true.
\<close>

theorem allow_amended:
  "(rl_max rl \<le> 0 \<longrightarrow> DomainRateLimiter_allow d now rl = (True, rl)) \<and>
   (0 < rl_max rl \<and> rl_period rl = 60 \<and> sorted (bucket_of rl d) \<longrightarrow>
      DomainRateLimiter_allow d now rl =
        (let remaining = filter (\<lambda>t. \<not> t < now - 60) (bucket_of rl d)
         in if rl_max rl \<le> int (length remaining) then
              (False, rl\<lparr>rl_calls := (rl_calls rl)(d \<mapsto> remaining)\<rparr>)
            else (True, rl\<lparr>rl_calls := (rl_calls rl)(d \<mapsto> remaining @ [now])\<rparr>)))"
proof (intro conjI impI)
  assume "rl_max rl \<le> 0"
  then show "DomainRateLimiter_allow d now rl = (True, rl)"
    by (simp add: DomainRateLimiter_allow_def)
next
  assume a: "0 < rl_max rl \<and> rl_period rl = 60 \<and> sorted (bucket_of rl d)"
  have "(\<lambda>t. now - 60 \<le> t) = (\<lambda>t. \<not> t < now - 60)" by auto
  then have "purge now 60 (bucket_of rl d) = filter (\<lambda>t. \<not> t < now - 60) (bucket_of rl d)"
    using a purge_sorted [of "bucket_of rl d" now 60] by simp
  then show "DomainRateLimiter_allow d now rl =
        (let remaining = filter (\<lambda>t. \<not> t < now - 60) (bucket_of rl d)
         in if rl_max rl \<le> int (length remaining) then
              (False, rl\<lparr>rl_calls := (rl_calls rl)(d \<mapsto> remaining)\<rparr>)
            else (True, rl\<lparr>rl_calls := (rl_calls rl)(d \<mapsto> remaining @ [now])\<rparr>))"
    using a by (simp add: DomainRateLimiter_allow_def Let_def)
qed

text \<open>
  The claim as stated purges \<open>t \<le> now - 60\<close>. With \<open>max = 1\<close> and one admission at time
  0, a call at time 60 is refused by the code, the timestamp 0 staying in the bucket,
  where the stated rule purges it and admits the call.
\<close>

theorem allow_boundary_counterexample:
  "fst (DomainRateLimiter_allow ''example.com'' 60 example_limiter) = False \<and>
   rl_calls (snd (DomainRateLimiter_allow ''example.com'' 60 example_limiter)) ''example.com''
     = Some [0] \<and>
   fst (allow_spec ''example.com'' 60 example_limiter) = True \<and>
   rl_calls (snd (allow_spec ''example.com'' 60 example_limiter)) ''example.com'' = Some [60]"
  by (simp add: DomainRateLimiter_allow_def allow_spec_def example_limiter_def bucket_of_def)

theorem allow_amended_witness:
  "0 < rl_max example_limiter \<and> rl_period example_limiter = 60 \<and>
   sorted (bucket_of example_limiter ''example.com'') \<and>
   DomainRateLimiter_allow ''example.com'' 61 example_limiter =
     (True, example_limiter\<lparr>rl_calls := [''example.com'' \<mapsto> [61]]\<rparr>) \<and>
   DomainRateLimiter_allow ''example.com'' 60 example_limiter =
     (False, example_limiter) \<and>
   DomainRateLimiter_allow ''example.com'' 5 (example_limiter\<lparr>rl_max := 0\<rparr>) =
     (True, example_limiter\<lparr>rl_max := 0\<rparr>)"
proof -
  have h: "0 < rl_max example_limiter \<and> rl_period example_limiter = 60 \<and>
      sorted (bucket_of example_limiter ''example.com'')"
    by (simp add: example_limiter_def bucket_of_def)
  have b: "bucket_of example_limiter ''example.com'' = [0]"
    by (simp add: example_limiter_def bucket_of_def)
  have m: "rl_max example_limiter = 1" "rl_calls example_limiter = [''example.com'' \<mapsto> [0]]"
    by (simp_all add: example_limiter_def)
  have "DomainRateLimiter_allow ''example.com'' 61 example_limiter =
     (True, example_limiter\<lparr>rl_calls := [''example.com'' \<mapsto> [61]]\<rparr>)"
    using allow_amended [of example_limiter "''example.com''" 61] h by (simp add: b m)
  moreover have "DomainRateLimiter_allow ''example.com'' 60 example_limiter =
     (False, example_limiter)"
    using allow_amended [of example_limiter "''example.com''" 60] h by (simp add: b m)
  moreover have "DomainRateLimiter_allow ''example.com'' 5 (example_limiter\<lparr>rl_max := 0\<rparr>) =
     (True, example_limiter\<lparr>rl_max := 0\<rparr>)"
    using allow_amended [of "example_limiter\<lparr>rl_max := 0\<rparr>" "''example.com''" 5] by simp
  ultimately show ?thesis using h by simp
qed

subsection \<open>The result cache\<close>

lemma cache_call_ttl: "ttl (cache_call x c) = ttl c"
  by (cases x) (auto simp: ResultCache_get_def ResultCache_set_def split: option.splits)

lemma cache_calls_ttl: "ttl (cache_calls xs c) = ttl c"
  by (induction xs arbitrary: c) (simp_all add: cache_call_ttl)

lemma cache_calls_entry:
  assumes "entries c u = Some (t, r) \<or> entries c u = None"
    and "\<forall>x \<in> set xs. \<not> sets_url u x"
  shows "entries (cache_calls xs c) u = Some (t, r) \<or> entries (cache_calls xs c) u = None"
  using assms
proof (induction xs arbitrary: c)
  case Nil
  then show ?case by simp
next
  case (Cons x xs)
  have "entries (cache_call x c) u = Some (t, r) \<or> entries (cache_call x c) u = None"
    using Cons.prems
    by (cases x) (auto simp: ResultCache_get_def ResultCache_set_def split: option.splits)
  then show ?case using Cons by simp
qed

lemma cache_calls_fresh:
  assumes "entries c u = Some (t, r)"
    and "\<forall>x \<in> set xs. \<not> sets_url u x \<and> op_time x \<le> now"
    and "now - t \<le> of_int (ttl c)"
  shows "entries (cache_calls xs c) u = Some (t, r)"
  using assms
proof (induction xs arbitrary: c)
  case Nil
  then show ?case by simp
next
  case (Cons x xs)
  have "entries (cache_call x c) u = Some (t, r)"
    using Cons.prems
    by (cases x) (auto simp: ResultCache_get_def ResultCache_set_def split: option.splits)
  then show ?case using Cons by (simp add: cache_call_ttl)
qed

text \<open>
  Claim C4. After \<open>set(u, r)\<close> at time \<open>t\<close>, and any further calls on the cache that
  do not set \<open>u\<close> again, made no later than \<open>now\<close>: a \<open>get(u)\<close> at \<open>now\<close> returns \<open>r\<close>
  and leaves the cache as it is while \<open>now - t \<le> TTL\<close>; once \<open>now - t > TTL\<close> it
  returns a miss and the cache holds no entry for \<open>u\<close> afterwards.
\<close>

theorem cache_get_after_set:
  assumes "\<forall>x \<in> set xs. \<not> sets_url u x \<and> op_time x \<le> now"
  shows "(now - t \<le> of_int (ttl c) \<longrightarrow>
            ResultCache_get u now (cache_calls xs (ResultCache_set u r t c)) =
              (Some r, cache_calls xs (ResultCache_set u r t c))) \<and>
         (now - t > of_int (ttl c) \<longrightarrow>
            fst (ResultCache_get u now (cache_calls xs (ResultCache_set u r t c))) = None \<and>
            entries (snd (ResultCache_get u now (cache_calls xs (ResultCache_set u r t c)))) u
              = None)"
proof (intro conjI impI)
  let ?c0 = "ResultCache_set u r t c"
  have e0: "entries ?c0 u = Some (t, r)" and t0: "ttl ?c0 = ttl c"
    by (simp_all add: ResultCache_set_def)
  {
    assume "now - t \<le> of_int (ttl c)"
    then have "entries (cache_calls xs ?c0) u = Some (t, r)"
      using cache_calls_fresh [of ?c0 u t r xs now] e0 t0 assms by simp
    then show "ResultCache_get u now (cache_calls xs ?c0) = (Some r, cache_calls xs ?c0)"
      using \<open>now - t \<le> of_int (ttl c)\<close> by (simp add: ResultCache_get_def cache_calls_ttl t0)
  }
  {
    assume late: "now - t > of_int (ttl c)"
    have "entries (cache_calls xs ?c0) u = Some (t, r) \<or> entries (cache_calls xs ?c0) u = None"
      using cache_calls_entry [of ?c0 u t r xs] e0 assms by simp
    then show "fst (ResultCache_get u now (cache_calls xs ?c0)) = None"
      and "entries (snd (ResultCache_get u now (cache_calls xs ?c0))) u = None"
      using late by (auto simp: ResultCache_get_def cache_calls_ttl t0)
  }
qed


theorem cache_get_after_set_witness:
  "ResultCache_get ''https://example.com'' 3600
     (cache_calls [Get ''https://example.com'' 10, Set ''https://example.org'' [] 20,
                   Get ''https://example.org'' 30]
        (ResultCache_set ''https://example.com'' example_result 0 (ResultCache_init 3600)))
   = (Some example_result,
      cache_calls [Get ''https://example.com'' 10, Set ''https://example.org'' [] 20,
                   Get ''https://example.org'' 30]
        (ResultCache_set ''https://example.com'' example_result 0 (ResultCache_init 3600)))
   \<and> fst (ResultCache_get ''https://example.com'' 3601
     (cache_calls [Get ''https://example.com'' 10, Set ''https://example.org'' [] 20,
                   Get ''https://example.org'' 30]
        (ResultCache_set ''https://example.com'' example_result 0 (ResultCache_init 3600))))
   = None"
proof -
  have t: "ttl (ResultCache_init 3600) = 3600" by (simp add: ResultCache_init_def)
  have "\<forall>x \<in> set [Get ''https://example.com'' 10, Set ''https://example.org'' [] 20,
                   Get ''https://example.org'' 30].
          \<not> sets_url ''https://example.com'' x \<and> op_time x \<le> 3600"
    by simp
  from cache_get_after_set [OF this, of 0 "ResultCache_init 3600" example_result]
  have a: "ResultCache_get ''https://example.com'' 3600
     (cache_calls [Get ''https://example.com'' 10, Set ''https://example.org'' [] 20,
                   Get ''https://example.org'' 30]
        (ResultCache_set ''https://example.com'' example_result 0 (ResultCache_init 3600)))
   = (Some example_result,
      cache_calls [Get ''https://example.com'' 10, Set ''https://example.org'' [] 20,
                   Get ''https://example.org'' 30]
        (ResultCache_set ''https://example.com'' example_result 0 (ResultCache_init 3600)))"
    by (simp add: t)
  have "\<forall>x \<in> set [Get ''https://example.com'' 10, Set ''https://example.org'' [] 20,
                   Get ''https://example.org'' 30].
          \<not> sets_url ''https://example.com'' x \<and> op_time x \<le> 3601"
    by simp
  from cache_get_after_set [OF this, of 0 "ResultCache_init 3600" example_result]
  have b: "fst (ResultCache_get ''https://example.com'' 3601
     (cache_calls [Get ''https://example.com'' 10, Set ''https://example.org'' [] 20,
                   Get ''https://example.org'' 30]
        (ResultCache_set ''https://example.com'' example_result 0 (ResultCache_init 3600))))
   = None"
    by (simp add: t)
  show ?thesis using a b by simp
qed

subsection \<open>Task records along the runs of the server\<close>

lemma set_status_Inr:
  "TaskManager_set_status tid s e now tm = Inr tm' \<longleftrightarrow>
     (\<exists>r. tm tid = Some r \<and> tm' = tm(tid \<mapsto> r\<lparr>t_status := s, t_updated_at := now, t_error := e\<rparr>))"
  by (auto simp: TaskManager_set_status_def split: option.splits)

lemma set_result_Inr:
  "TaskManager_set_result tid d s now tm = Inr tm' \<longleftrightarrow>
     (\<exists>r. tm tid = Some r \<and>
          tm' = tm(tid \<mapsto> r\<lparr>t_result := Some d, t_status := s, t_error := None, t_updated_at := now\<rparr>))"
  by (auto simp: TaskManager_set_result_def split: option.splits)

lemma set_status_Inl:
  "TaskManager_set_status tid s e now tm = Inl x \<longleftrightarrow> tm tid = None \<and> x = key_error tid"
  by (auto simp: TaskManager_set_status_def split: option.splits)

lemma set_result_Inl:
  "TaskManager_set_result tid d s now tm = Inl x \<longleftrightarrow> tm tid = None \<and> x = key_error tid"
  by (auto simp: TaskManager_set_result_def split: option.splits)

lemma except_clauses_running:
  assumes "task_manager a tid = Some r"
  shows "except_clauses tid e now a =
     a\<lparr>running_tasks := (running_tasks a)(tid := None),
       task_manager := (task_manager a)(tid \<mapsto> r\<lparr>t_status := ''failed'', t_updated_at := now,
          t_error := Some (if exc_type e = TimeoutError then ''Timeout'' else exc_str e)\<rparr>)\<rparr>"
  using assms by (simp add: except_clauses_def TaskManager_set_status_def Let_def)

lemma app_inv_except:
  assumes "app_inv a" and "running_tasks a tid = Some co"
  shows "app_inv (except_clauses tid e now a)"
proof -
  obtain r where r: "task_manager a tid = Some r" "t_result r = None"
    using assms by (auto simp: app_inv_def)
  show ?thesis
    using assms(1) r unfolding except_clauses_running [OF r(1)]
    by (auto simp: app_inv_def record_ok_def)
qed

lemma app_inv_start:
  assumes "app_inv a" and "running_tasks a tid = Some co"
  shows "app_inv (process_scrape_task_start tid url now a)"
proof -
  obtain r where r: "task_manager a tid = Some r" "t_result r = None"
    using assms by (auto simp: app_inv_def)
  show ?thesis
    using assms(1) r
    by (auto simp: process_scrape_task_start_def TaskManager_set_status_def app_inv_def
        record_ok_def)
qed

lemma app_inv_fetched:
  assumes "app_inv a" and "running_tasks a tid = Some co"
  shows "app_inv (process_scrape_task_fetched ev tid url fetched now a)"
proof -
  obtain r where r: "task_manager a tid = Some r" "t_result r = None"
    using assms by (auto simp: app_inv_def)
  have "app_inv (a\<lparr>task_manager := (task_manager a)(tid \<mapsto>
            r\<lparr>t_status := ''processing'', t_updated_at := now, t_error := None\<rparr>),
          running_tasks := (running_tasks a)(tid \<mapsto> c)\<rparr>)" for c
    using assms(1) r by (auto simp: app_inv_def record_ok_def)
  then show ?thesis
    using app_inv_except [OF assms] r
    by (auto simp: process_scrape_task_fetched_def TaskManager_set_status_def Let_def
        split: sum.splits)
qed

lemma app_inv_processed:
  assumes "app_inv a" and "running_tasks a tid = Some co"
  shows "app_inv (process_scrape_task_processed ev tid url sd payload connection now a)"
proof -
  obtain r where r: "task_manager a tid = Some r" "t_result r = None"
    using assms by (auto simp: app_inv_def)
  have "app_inv (a\<lparr>task_manager := (task_manager a)(tid \<mapsto>
            r\<lparr>t_result := Some d, t_status := ''completed'', t_error := None,
              t_updated_at := now\<rparr>),
          cache := c,
          running_tasks := (running_tasks a)(tid := None)\<rparr>)" for c d
    using assms(1) r by (auto simp: app_inv_def record_ok_def)
  then show ?thesis
    using app_inv_except [OF assms] r
    by (auto simp: process_scrape_task_processed_def TaskManager_set_result_def Let_def
        split: sum.splits json.splits)
qed

lemma app_inv_request:
  assumes "app_inv a" and "task_manager a tid = None"
  shows "app_inv (snd (handle_scrape ev data tid now a))"
proof -
  have nr: "running_tasks a tid = None"
    using assms by (cases "running_tasks a tid") (auto simp: app_inv_def)
  show ?thesis
    using assms nr
    by (auto simp: handle_scrape_def TaskManager_create_task_def TaskManager_set_result_def
        Let_def app_inv_def record_ok_def split: sum.splits option.splits prod.splits)
qed

lemma app_inv_fire:
  assumes "app_inv a" and "fresh e a"
  shows "app_inv (fire ev e a)"
proof (cases e)
  case (Request data tid now)
  then show ?thesis using assms by (simp add: app_inv_request)
next
  case (Start tid now)
  then show ?thesis
    using assms by (auto simp: app_inv_start split: option.splits coroutine.splits)
next
  case (Fetched tid fetched now)
  then show ?thesis
    using assms by (auto simp: app_inv_fetched split: option.splits coroutine.splits)
next
  case (Processed tid connection now)
  then show ?thesis
    using assms by (auto simp: app_inv_processed split: option.splits coroutine.splits)
qed

lemma app_inv_run:
  "app_inv a \<Longrightarrow> along fresh ev es a \<Longrightarrow> app_inv (run ev es a)"
  by (induction es arbitrary: a) (auto simp: app_inv_fire)

lemma app_inv_build: "app_inv (build_app cfg rate_limit cache_ttl)"
  by (simp add: app_inv_def build_app_def)

lemma run_append: "run ev (es @ [e]) a = fire ev e (run ev es a)"
  by (induction es arbitrary: a) simp_all

lemma along_append: "along P ev (es @ [e]) a = (along P ev es a \<and> P e (run ev es a))"
  by (induction es arbitrary: a) simp_all

subsection \<open>Result documents along the runs of the server\<close>

lemma two_keys: "map fst d = [k1, k2] \<Longrightarrow> \<exists>v1 v2. d = [(k1, v1), (k2, v2)]"
  by (cases d; cases "tl d") auto

lemma map_of_dict_set: "map_of (dict_set d k v) k' = (if k' = k then Some v else map_of d k')"
  by (induction d) auto

lemma dict_has_set: "dict_has (dict_set d k v) k' = (k' = k \<or> dict_has d k')"
  by (simp add: dict_has_def map_of_dict_set)

lemma merge_result_status:
  "dict_get (merge_result url ts sd resp) ''status'' =
     JStr (if dict_get resp ''status'' = JStr ''success'' then ''success'' else ''partial'')"
  by (simp add: merge_result_def dict_get_set Let_def)
     (simp add: dict_get_def dict_get_default_def)

lemma merge_result_error:
  "dict_has (merge_result url ts sd resp) ''processing_error'' = dict_has resp ''error''"
  by (simp add: merge_result_def dict_has_set Let_def) (simp add: dict_has_def)

lemma status_ok_merge: "status_ok (merge_result url ts sd resp)"
  by (simp add: status_ok_def merge_result_status)

lemma result_ok_merge:
  "result_ok (merge_result url ts sd resp) \<longleftrightarrow> consistent_response (JObj resp)"
  by (auto simp: result_ok_def status_ok_merge merge_result_status merge_result_error
      consistent_response_def)

lemma server_response_consistent: "is_server_response r \<Longrightarrow> consistent_response r"
proof (cases r)
  case (JObj resp)
  assume "is_server_response r"
  with JObj consider
    (ok) v where "resp = [(''status'', JStr ''success''), (''processing_data'', v)]"
  | (err) v where "resp = [(''status'', JStr ''error''), (''error'', v)]"
    by (auto simp: is_server_response_def dict_get_def dict_get_default_def dest!: two_keys)
  then show ?thesis
    using JObj
    by cases
      (simp_all add: consistent_response_def dict_get_def dict_get_default_def dict_has_def)
qed (simp_all add: is_server_response_def)

lemma failed_consistent: "consistent_response (processing_failed e)"
  by (simp add: consistent_response_def processing_failed_def dict_get_def
      dict_get_default_def dict_has_def)

lemma merge_failed:
  "processing_failed e = JObj resp \<Longrightarrow>
     merge_result url ts sd resp =
       [(''url'', JStr url), (''timestamp'', JStr ts), (''scraping_data'', JObj sd),
        (''processing_data'', JObj []), (''status'', JStr ''partial''),
        (''processing_error'', JStr (class_name (exc_type e) @ '': '' @ exc_str e))]"
  by (auto simp: processing_failed_def merge_result_def dict_get_def dict_get_default_def
      dict_has_def)

lemma handle_response_shape: "is_server_response (JObj (handle_response an received))"
  by (auto simp: handle_response_def is_server_response_def error_response_def Let_def
      dict_get_def dict_get_default_def split: sum.splits json.splits prod.splits)

lemma results_all_except: "results_all P a \<Longrightarrow> results_all P (except_clauses tid e now a)"
  by (auto simp: results_all_def except_clauses_def TaskManager_set_status_def Let_def
      split: option.splits if_splits)

lemma results_all_start:
  "results_all P a \<Longrightarrow> results_all P (process_scrape_task_start tid url now a)"
  by (auto simp: results_all_def process_scrape_task_start_def except_clauses_def
      TaskManager_set_status_def Let_def split: option.splits if_splits)

lemma results_all_fetched:
  "results_all P a \<Longrightarrow> results_all P (process_scrape_task_fetched ev tid url fetched now a)"
proof -
  assume a: "results_all P a"
  have "results_all P (a\<lparr>task_manager := (task_manager a)(tid \<mapsto>
            r\<lparr>t_status := ''processing'', t_updated_at := now, t_error := None\<rparr>),
          running_tasks := k\<rparr>)" if "task_manager a tid = Some r" for r k
    using a that by (auto simp: results_all_def)
  then show ?thesis
    using results_all_except [OF a]
    by (auto simp: process_scrape_task_fetched_def TaskManager_set_status_def Let_def
        split: sum.splits option.splits)
qed

lemma results_all_processed:
  assumes "results_all P a"
    and "\<And>resp. (case call_processing_server_async (json_library ev) connection payload of
                    Inr response \<Rightarrow> response | Inl exc \<Rightarrow> processing_failed exc) = JObj resp \<Longrightarrow>
           P (merge_result url (strftime ev now) sd resp)"
  shows "results_all P (process_scrape_task_processed ev tid url sd payload connection now a)"
proof -
  have "results_all P (a\<lparr>task_manager := (task_manager a)(tid \<mapsto>
            r\<lparr>t_result := Some d, t_status := ''completed'', t_error := None,
              t_updated_at := now\<rparr>),
          cache := ResultCache_set url d now (cache a),
          running_tasks := k\<rparr>)" if "P d" for r k d
    using assms(1) that by (auto simp: results_all_def ResultCache_set_def)
  then show ?thesis
    using results_all_except [OF assms(1)] assms(2)
    by (auto simp: process_scrape_task_processed_def TaskManager_set_result_def Let_def
        split: sum.splits json.splits option.splits)
qed

lemma results_all_request:
  assumes "results_all P a"
  shows "results_all P (snd (handle_scrape ev data tid now a))"
  using assms
  by (auto simp: handle_scrape_def TaskManager_create_task_def TaskManager_set_result_def
      ResultCache_get_def Let_def results_all_def
      split: sum.splits option.splits prod.splits if_splits)

lemma results_all_fire:
  assumes "results_all P a"
    and "\<And>tid connection now url sd payload resp.
           e = Processed tid connection now \<Longrightarrow>
           running_tasks a tid = Some (AwaitProcessing url sd payload) \<Longrightarrow>
           (case call_processing_server_async (json_library ev) connection payload of
              Inr response \<Rightarrow> response | Inl exc \<Rightarrow> processing_failed exc) = JObj resp \<Longrightarrow>
           P (merge_result url (strftime ev now) sd resp)"
  shows "results_all P (fire ev e a)"
proof (cases e)
  case (Request data tid now)
  then show ?thesis using assms(1) by (simp add: results_all_request)
next
  case (Start tid now)
  then show ?thesis
    using assms(1) by (auto simp: results_all_start split: option.splits coroutine.splits)
next
  case (Fetched tid fetched now)
  then show ?thesis
    using assms(1) by (auto simp: results_all_fetched split: option.splits coroutine.splits)
next
  case (Processed tid connection now)
  show ?thesis
  proof (cases "running_tasks a tid")
    case None
    then show ?thesis using Processed assms(1) by simp
  next
    case (Some co)
    then show ?thesis
      using Processed assms(1) assms(2) [OF Processed]
      by (cases co) (simp_all add: results_all_processed)
  qed
qed

lemma status_ok_run: "results_all status_ok a \<Longrightarrow> results_all status_ok (run ev es a)"
  by (induction es arbitrary: a) (simp_all add: results_all_fire status_ok_merge)

lemma result_ok_fire:
  assumes "results_all result_ok a" and "reply_consistent ev e a"
  shows "results_all result_ok (fire ev e a)"
proof (rule results_all_fire [OF assms(1)])
  fix tid connection now url sd payload resp
  assume e: "e = Processed tid connection now"
    and r: "running_tasks a tid = Some (AwaitProcessing url sd payload)"
    and c: "(case call_processing_server_async (json_library ev) connection payload of
              Inr response \<Rightarrow> response | Inl exc \<Rightarrow> processing_failed exc) = JObj resp"
  have "consistent_response (JObj resp)"
  proof (cases "call_processing_server_async (json_library ev) connection payload")
    case (Inl x)
    then have "processing_failed x = JObj resp" using c by simp
    then show ?thesis using failed_consistent [of x] by simp
  next
    case (Inr y)
    then have "y = JObj resp" using c by simp
    then show ?thesis using assms(2) e r Inr by simp
  qed
  then show "result_ok (merge_result url (strftime ev now) sd resp)"
    by (simp add: result_ok_merge)
qed

lemma result_ok_run:
  "results_all result_ok a \<Longrightarrow> along (admissible ev) ev es a \<Longrightarrow>
     results_all result_ok (run ev es a)"
  by (induction es arbitrary: a) (auto simp: result_ok_fire admissible_def)

lemma along_admissible_fresh: "along (admissible ev) ev es a \<Longrightarrow> along fresh ev es a"
  by (induction es arbitrary: a) (auto simp: admissible_def)

lemma results_all_build: "results_all P (build_app cfg rate_limit cache_ttl)"
  by (simp add: results_all_def build_app_def ResultCache_init_def)

subsection \<open>The processing server as the peer\<close>

text \<open>
  Run without interruption, the three stages of the pipeline are the coroutine from
  start to end. And when the peer of the processing call is the handler of the
  processing server and the JSON library reads back what it writes, a call that
  returns, returns one of the handler's two shapes of response.
\<close>

lemma process_scrape_task_as_run:
  assumes "running_tasks a tid = Some (Scheduled url)"
  shows "process_scrape_task ev tid url fetched connection now a =
           run ev [Start tid now, Fetched tid fetched now, Processed tid connection now] a"
proof (cases "TaskManager_set_status tid ''scraping'' None now (task_manager a)")
  case (Inl e)
  then show ?thesis
    using assms
    by (simp add: process_scrape_task_def process_scrape_task_start_def except_clauses_def
        Let_def split: sum.splits)
next
  case (Inr tm)
  then have st: "process_scrape_task_start tid url now a =
      a\<lparr>task_manager := tm, running_tasks := (running_tasks a)(tid \<mapsto> AwaitFetch url)\<rparr>"
    by (simp add: process_scrape_task_start_def)
  show ?thesis
    using assms by (simp add: process_scrape_task_def st Let_def)
qed

lemma pack_Inr:
  "HEADER_STRUCT_pack n = Inr h \<Longrightarrow> length h = 4 \<and> HEADER_STRUCT_unpack h = Inr n"
  using unpack_pack [of n] by (auto simp: HEADER_STRUCT_pack_def split: if_splits)

lemma error_response_shape: "is_server_response (JObj (error_response msg))"
  by (simp add: is_server_response_def error_response_def dict_get_def dict_get_default_def)

lemma handle_frame:
  assumes "handle lib an s = Inr frame"
  shows "\<exists>resp h data. is_server_response (JObj resp) \<and> dumps lib (JObj resp) = Inr data \<and>
           HEADER_STRUCT_pack (length data) = Inr h \<and> frame = h @ data"
proof -
  define received where
    "received = (case recv_message lib s of Inl e \<Rightarrow> Inl e | Inr (payload, s') \<Rightarrow> Inr payload)"
  have sent: "send_message lib (JObj resp) = Inr frame \<Longrightarrow>
      \<exists>h data. dumps lib (JObj resp) = Inr data \<and>
           HEADER_STRUCT_pack (length data) = Inr h \<and> frame = h @ data" for resp
    by (auto simp: send_message_def split: sum.splits)
  from assms consider
    "send_message lib (JObj (handle_response an received)) = Inr frame"
  | e where "send_message lib (JObj (error_response (exc_str e))) = Inr frame"
    by (auto simp: handle_def Let_def received_def split: sum.splits)
  then show ?thesis
  proof cases
    case 1
    then show ?thesis using sent handle_response_shape by blast
  next
    case 2
    then show ?thesis using sent error_response_shape by blast
  qed
qed

lemma call_over_handle:
  assumes "handle lib an s = Inr frame"
    and roundtrip: "\<And>m data. dumps lib m = Inr data \<Longrightarrow> loads lib data = Inr m"
    and "call_processing_server_async lib (Inr \<lparr>incoming = frame, stalls = st\<rparr>) payload = Inr r"
  shows "is_server_response r"
proof -
  obtain resp h data where resp: "is_server_response (JObj resp)"
    and d: "dumps lib (JObj resp) = Inr data"
    and h: "HEADER_STRUCT_pack (length data) = Inr h" and f: "frame = h @ data"
    using handle_frame [OF assms(1)] by blast
  have hh: "length h = 4" "HEADER_STRUCT_unpack h = Inr (length data)"
    using pack_Inr [OF h] by simp_all
  have "read_response lib \<lparr>incoming = h @ data, stalls = st\<rparr> = Inr r"
    using assms(3) f by (auto simp: call_processing_server_async_def split: sum.splits)
  then have "loads lib data = Inr r"
    by (simp add: read_response_length_check [OF hh] split: if_splits)
  then show ?thesis using roundtrip [OF d] resp by simp
qed

subsection \<open>Failures of the processing call\<close>

lemma processed_failure:
  assumes "task_manager a tid = Some r"
    and "call_processing_server_async (json_library ev) connection payload = Inl e"
  shows "process_scrape_task_processed ev tid url sd payload connection now a =
     a\<lparr>task_manager := (task_manager a)(tid \<mapsto>
          r\<lparr>t_result := Some (merge_result url (strftime ev now) sd
                 [(''status'', JStr ''error''), (''processing_data'', JObj []),
                  (''error'', JStr (class_name (exc_type e) @ '': '' @ exc_str e))]),
            t_status := ''completed'', t_error := None, t_updated_at := now\<rparr>),
       cache := ResultCache_set url (merge_result url (strftime ev now) sd
                 [(''status'', JStr ''error''), (''processing_data'', JObj []),
                  (''error'', JStr (class_name (exc_type e) @ '': '' @ exc_str e))]) now (cache a),
       running_tasks := (running_tasks a)(tid := None)\<rparr>"
  using assms
  by (simp add: process_scrape_task_processed_def processing_failed_def
      TaskManager_set_result_def Let_def)

lemma processed_returned:
  assumes "task_manager a tid = Some r"
    and "call_processing_server_async (json_library ev) connection payload = Inr (JObj resp)"
  shows "process_scrape_task_processed ev tid url sd payload connection now a =
     a\<lparr>task_manager := (task_manager a)(tid \<mapsto>
          r\<lparr>t_result := Some (merge_result url (strftime ev now) sd resp),
            t_status := ''completed'', t_error := None, t_updated_at := now\<rparr>),
       cache := ResultCache_set url (merge_result url (strftime ev now) sd resp) now (cache a),
       running_tasks := (running_tasks a)(tid := None)\<rparr>"
  using assms
  by (simp add: process_scrape_task_processed_def TaskManager_set_result_def Let_def)

text \<open>
  Claim C3, amended. In a run of the server from \<open>build_app\<close> (task ids never drawn
  twice): when the processing call of the pipeline for a URL raises, the task becomes
  \<open>completed\<close> and its result has \<open>status = "partial"\<close>, \<open>processing_data = {}\<close> and a
  \<open>processing_error\<close>; every completed task has a result whose status is \<open>"success"\<close>
  or \<open>"partial"\<close>; and when every processing call that returned, returned a consistent
  response (\<open>status = "success"\<close> exactly when there is no \<open>error\<close> key, as in both shapes
  of response of the processing server), the status of the result of every completed
  task is \<open>"partial"\<close> iff the key \<open>processing_error\<close> is present.
\<close>

theorem processing_error_gives_partial:
  "(along fresh ev es (build_app cfg rate_limit cache_ttl) \<and>
    running_tasks (run ev es (build_app cfg rate_limit cache_ttl)) tid =
      Some (AwaitProcessing url sd payload) \<and>
    call_processing_server_async (json_library ev) connection payload = Inl e \<longrightarrow>
      (\<exists>r d. task_manager (fire ev (Processed tid connection now)
                 (run ev es (build_app cfg rate_limit cache_ttl))) tid = Some r \<and>
             t_status r = ''completed'' \<and> t_result r = Some d \<and>
             dict_get d ''status'' = JStr ''partial'' \<and>
             dict_get d ''processing_data'' = JObj [] \<and>
             dict_has d ''processing_error'' \<and>
             dict_get d ''processing_error'' =
               JStr (class_name (exc_type e) @ '': '' @ exc_str e)))
   \<and> (along fresh ev es (build_app cfg rate_limit cache_ttl) \<and>
      task_manager (run ev es (build_app cfg rate_limit cache_ttl)) tid' = Some r' \<and>
      t_status r' = ''completed'' \<longrightarrow>
      (\<exists>d. t_result r' = Some d \<and>
           (dict_get d ''status'' = JStr ''success'' \<or> dict_get d ''status'' = JStr ''partial'')))
   \<and> (along (admissible ev) ev es (build_app cfg rate_limit cache_ttl) \<and>
      task_manager (run ev es (build_app cfg rate_limit cache_ttl)) tid' = Some r' \<and>
      t_status r' = ''completed'' \<longrightarrow>
      (\<exists>d. t_result r' = Some d \<and>
           (dict_get d ''status'' = JStr ''partial'' \<longleftrightarrow> dict_has d ''processing_error'')))"
proof (intro conjI impI)
  let ?a = "run ev es (build_app cfg rate_limit cache_ttl)"
  assume h: "along fresh ev es (build_app cfg rate_limit cache_ttl) \<and>
    running_tasks ?a tid = Some (AwaitProcessing url sd payload) \<and>
    call_processing_server_async (json_library ev) connection payload = Inl e"
  then have "app_inv ?a" by (simp add: app_inv_run app_inv_build)
  then obtain r where r: "task_manager ?a tid = Some r"
    using h by (auto simp: app_inv_def)
  have m: "merge_result url (strftime ev now) sd
                 [(''status'', JStr ''error''), (''processing_data'', JObj []),
                  (''error'', JStr (class_name (exc_type e) @ '': '' @ exc_str e))] =
       [(''url'', JStr url), (''timestamp'', JStr (strftime ev now)), (''scraping_data'', JObj sd),
        (''processing_data'', JObj []), (''status'', JStr ''partial''),
        (''processing_error'', JStr (class_name (exc_type e) @ '': '' @ exc_str e))]"
    by (rule merge_failed) (simp add: processing_failed_def)
  show "\<exists>r d. task_manager (fire ev (Processed tid connection now) ?a) tid = Some r \<and>
             t_status r = ''completed'' \<and> t_result r = Some d \<and>
             dict_get d ''status'' = JStr ''partial'' \<and>
             dict_get d ''processing_data'' = JObj [] \<and>
             dict_has d ''processing_error'' \<and>
             dict_get d ''processing_error'' =
               JStr (class_name (exc_type e) @ '': '' @ exc_str e)"
  proof -
    let ?d = "merge_result url (strftime ev now) sd
                 [(''status'', JStr ''error''), (''processing_data'', JObj []),
                  (''error'', JStr (class_name (exc_type e) @ '': '' @ exc_str e))]"
    have d: "dict_get ?d ''status'' = JStr ''partial''"
      "dict_get ?d ''processing_data'' = JObj []"
      "dict_has ?d ''processing_error''"
      "dict_get ?d ''processing_error'' = JStr (class_name (exc_type e) @ '': '' @ exc_str e)"
      unfolding m by (simp_all add: dict_get_def dict_get_default_def dict_has_def)
    have "task_manager (fire ev (Processed tid connection now) ?a) tid =
        Some (r\<lparr>t_result := Some ?d, t_status := ''completed'', t_error := None,
                t_updated_at := now\<rparr>)"
      using h by (simp add: processed_failure [OF r])
    then show ?thesis using d by simp
  qed
next
  let ?a = "run ev es (build_app cfg rate_limit cache_ttl)"
  assume h: "along fresh ev es (build_app cfg rate_limit cache_ttl) \<and>
      task_manager ?a tid' = Some r' \<and> t_status r' = ''completed''"
  then have "app_inv ?a" and "results_all status_ok ?a"
    by (simp_all add: app_inv_run app_inv_build status_ok_run results_all_build)
  then have "record_ok r'" and res: "\<And>d. t_result r' = Some d \<Longrightarrow> status_ok d"
    using h unfolding app_inv_def results_all_def by blast+
  then obtain d where d: "t_result r' = Some d"
    using h by (auto simp: record_ok_def)
  then have "status_ok d" by (rule res)
  then show "\<exists>d. t_result r' = Some d \<and>
           (dict_get d ''status'' = JStr ''success'' \<or> dict_get d ''status'' = JStr ''partial'')"
    using d unfolding status_ok_def by blast
next
  let ?a = "run ev es (build_app cfg rate_limit cache_ttl)"
  assume h: "along (admissible ev) ev es (build_app cfg rate_limit cache_ttl) \<and>
      task_manager ?a tid' = Some r' \<and> t_status r' = ''completed''"
  then have "app_inv ?a" and "results_all result_ok ?a"
    by (simp_all add: app_inv_run app_inv_build along_admissible_fresh result_ok_run
        results_all_build)
  then have "record_ok r'" and res: "\<And>d. t_result r' = Some d \<Longrightarrow> result_ok d"
    using h unfolding app_inv_def results_all_def by blast+
  then obtain d where d: "t_result r' = Some d"
    using h by (auto simp: record_ok_def)
  then have "result_ok d" by (rule res)
  then show "\<exists>d. t_result r' = Some d \<and>
           (dict_get d ''status'' = JStr ''partial'' \<longleftrightarrow> dict_has d ''processing_error'')"
    using d unfolding result_ok_def by blast
qed

lemma example_fetch_state:
  "running_tasks (run example_env example_fetch example_app) ''t1'' =
     Some (AwaitProcessing ''https://example.com'' example_scraping_data
       (JObj [(''url'', JStr ''https://example.com''), (''tasks'', all_tasks),
              (''image_urls'', JArr []), (''html'', JStr ''<html></html>''),
              (''scraping_data'', JObj example_scraping_data)]))"
  by (simp add: example_fetch_def example_start_def example_app_def example_env_def
      example_config_def build_app_def handle_scrape_def DomainRateLimiter_allow_def DomainRateLimiter_init_def
      ResultCache_init_def ResultCache_get_def TaskManager_create_task_def bucket_of_def
      process_scrape_task_start_def process_scrape_task_fetched_def
      TaskManager_set_status_def example_scraping_data_def Let_def)

lemma example_fetch_fresh: "along fresh example_env example_fetch example_app"
  by (simp add: example_fetch_def example_start_def example_app_def build_app_def)

lemma example_payload:
  "call_processing_server_async (json_library example_env) refused payload =
     Inl (Exc (OtherException ''ConnectionRefusedError'') ''connection refused'')"
  by (simp add: call_processing_server_async_def refused_def)

lemma example_done_state:
  "task_manager (run example_env (example_fetch @ [Processed ''t1'' refused 3]) example_app) ''t1'' =
     Some \<lparr>task_id = ''t1'', t_url = ''https://example.com'', t_status = ''completed'',
           t_created_at = 0, t_updated_at = 3, t_result = Some example_result, t_error = None\<rparr>"
proof -
  have tm: "task_manager (run example_env example_fetch example_app) ''t1'' =
     Some \<lparr>task_id = ''t1'', t_url = ''https://example.com'', t_status = ''processing'',
           t_created_at = 0, t_updated_at = 2, t_result = None, t_error = None\<rparr>"
    by (simp add: example_fetch_def example_start_def example_app_def example_env_def
      example_config_def build_app_def handle_scrape_def DomainRateLimiter_allow_def
      DomainRateLimiter_init_def ResultCache_init_def ResultCache_get_def
      TaskManager_create_task_def bucket_of_def process_scrape_task_start_def
      process_scrape_task_fetched_def TaskManager_set_status_def Let_def)
  have m: "merge_result ''https://example.com'' (strftime example_env 3) example_scraping_data
       [(''status'', JStr ''error''), (''processing_data'', JObj []),
        (''error'', JStr ''ConnectionRefusedError: connection refused'')]
       = example_result"
    by (simp add: merge_result_def example_result_def example_env_def dict_get_def
        dict_get_default_def dict_has_def)
  show ?thesis
    unfolding run_append
    by (simp add: example_fetch_state processed_failure [OF tm example_payload] m)
qed

lemma reading_fetch_state:
  "running_tasks (run (reading_env r) example_fetch example_app) ''t1'' =
     Some (AwaitProcessing ''https://example.com'' example_scraping_data
       (JObj [(''url'', JStr ''https://example.com''), (''tasks'', all_tasks),
              (''image_urls'', JArr []), (''html'', JStr ''<html></html>''),
              (''scraping_data'', JObj example_scraping_data)]))"
  "task_manager (run (reading_env r) example_fetch example_app) ''t1'' =
     Some \<lparr>task_id = ''t1'', t_url = ''https://example.com'', t_status = ''processing'',
           t_created_at = 0, t_updated_at = 2, t_result = None, t_error = None\<rparr>"
  by (simp_all add: reading_env_def example_fetch_def example_start_def example_app_def
      example_env_def example_config_def build_app_def handle_scrape_def
      DomainRateLimiter_allow_def DomainRateLimiter_init_def ResultCache_init_def
      ResultCache_get_def TaskManager_create_task_def bucket_of_def
      process_scrape_task_start_def process_scrape_task_fetched_def
      TaskManager_set_status_def example_scraping_data_def Let_def)

lemma reading_call:
  "call_processing_server_async (json_library (reading_env r)) answered payload = Inr r"
  by (simp add: reading_env_def lib_reading_def answered_def call_processing_server_async_def
      read_response_def readexactly_def HEADER_STRUCT_pack_def)

lemma reading_done_state:
  "task_manager (run (reading_env (JObj resp)) (example_fetch @ [Processed ''t1'' answered 3])
      example_app) ''t1'' =
     Some \<lparr>task_id = ''t1'', t_url = ''https://example.com'', t_status = ''completed'',
           t_created_at = 0, t_updated_at = 3,
           t_result = Some (merge_result ''https://example.com'' ''2025-01-01T00:00:00Z''
                              example_scraping_data resp),
           t_error = None\<rparr>"
proof -
  have ts: "strftime (reading_env (JObj resp)) 3 = ''2025-01-01T00:00:00Z''"
    by (simp add: reading_env_def example_env_def)
  show ?thesis
    unfolding run_append
    by (simp add: reading_fetch_state
        processed_returned [OF reading_fetch_state(2) reading_call] ts)
qed

lemma reading_fresh:
  "along fresh (reading_env r) (example_fetch @ [Processed ''t1'' answered 3]) example_app"
  by (simp add: along_append)
     (simp add: example_fetch_def example_start_def example_app_def build_app_def)

lemma success_admissible:
  "along (admissible (reading_env (JObj success_reply))) (reading_env (JObj success_reply))
     (example_fetch @ [Processed ''t1'' answered 3]) example_app"
proof -
  have "along (admissible (reading_env (JObj success_reply))) (reading_env (JObj success_reply))
     example_fetch example_app"
    by (simp add: example_fetch_def example_start_def example_app_def build_app_def
        admissible_def)
  moreover have "consistent_response (JObj success_reply)"
    by (simp add: consistent_response_def success_reply_def dict_get_def dict_get_default_def
        dict_has_def)
  ultimately show ?thesis
    by (simp add: along_append admissible_def reading_fetch_state reading_call)
qed

lemma success_merged:
  "merge_result ''https://example.com'' ''2025-01-01T00:00:00Z'' example_scraping_data
     success_reply = success_result"
  by (simp add: merge_result_def success_reply_def success_result_def dict_get_def
      dict_get_default_def dict_has_def)

lemma odd_merged:
  "merge_result ''https://example.com'' ''2025-01-01T00:00:00Z'' example_scraping_data
     odd_reply = odd_result"
  by (simp add: merge_result_def odd_reply_def odd_result_def dict_get_def
      dict_get_default_def dict_has_def)

theorem processing_error_gives_partial_witness:
  "along fresh example_env example_fetch example_app \<and>
   running_tasks (run example_env example_fetch example_app) ''t1'' =
     Some (AwaitProcessing ''https://example.com'' example_scraping_data
       (JObj [(''url'', JStr ''https://example.com''), (''tasks'', all_tasks),
              (''image_urls'', JArr []), (''html'', JStr ''<html></html>''),
              (''scraping_data'', JObj example_scraping_data)])) \<and>
   (\<exists>r d. task_manager (fire example_env (Processed ''t1'' refused 3)
                 (run example_env example_fetch example_app)) ''t1'' = Some r \<and>
          t_status r = ''completed'' \<and> t_result r = Some d \<and>
          dict_get d ''status'' = JStr ''partial'' \<and>
          dict_get d ''processing_data'' = JObj [] \<and>
          dict_has d ''processing_error'' \<and>
          dict_get d ''processing_error'' = JStr ''ConnectionRefusedError: connection refused'') \<and>
   along (admissible (reading_env (JObj success_reply))) (reading_env (JObj success_reply))
     (example_fetch @ [Processed ''t1'' answered 3]) example_app \<and>
   task_manager (run (reading_env (JObj success_reply))
       (example_fetch @ [Processed ''t1'' answered 3]) example_app) ''t1'' =
     Some \<lparr>task_id = ''t1'', t_url = ''https://example.com'', t_status = ''completed'',
           t_created_at = 0, t_updated_at = 3, t_result = Some success_result, t_error = None\<rparr> \<and>
   (dict_get success_result ''status'' = JStr ''success'' \<or>
    dict_get success_result ''status'' = JStr ''partial'') \<and>
   (dict_get success_result ''status'' = JStr ''partial'') =
     dict_has success_result ''processing_error''"
proof -
  note st = example_fetch_state and fr = example_fetch_fresh
  have one: "\<exists>r d. task_manager (fire example_env (Processed ''t1'' refused 3)
                 (run example_env example_fetch example_app)) ''t1'' = Some r \<and>
          t_status r = ''completed'' \<and> t_result r = Some d \<and>
          dict_get d ''status'' = JStr ''partial'' \<and>
          dict_get d ''processing_data'' = JObj [] \<and>
          dict_has d ''processing_error'' \<and>
          dict_get d ''processing_error'' =
            JStr (class_name (exc_type (Exc (OtherException ''ConnectionRefusedError'')
                    ''connection refused'')) @ '': '' @
                  exc_str (Exc (OtherException ''ConnectionRefusedError'') ''connection refused''))"
    using processing_error_gives_partial [THEN conjunct1, rule_format,
        of example_env example_fetch example_config 5 3600 "''t1''" "''https://example.com''"
           example_scraping_data _ refused _ 3]
      st fr example_payload
    unfolding example_app_def by blast
  have one': "\<exists>r d. task_manager (fire example_env (Processed ''t1'' refused 3)
                 (run example_env example_fetch example_app)) ''t1'' = Some r \<and>
          t_status r = ''completed'' \<and> t_result r = Some d \<and>
          dict_get d ''status'' = JStr ''partial'' \<and>
          dict_get d ''processing_data'' = JObj [] \<and>
          dict_has d ''processing_error'' \<and>
          dict_get d ''processing_error'' = JStr ''ConnectionRefusedError: connection refused''"
    using one by simp
  have fin: "task_manager (run (reading_env (JObj success_reply))
       (example_fetch @ [Processed ''t1'' answered 3]) example_app) ''t1'' =
     Some \<lparr>task_id = ''t1'', t_url = ''https://example.com'', t_status = ''completed'',
           t_created_at = 0, t_updated_at = 3, t_result = Some success_result, t_error = None\<rparr>"
    by (simp add: reading_done_state success_merged)
  have two: "\<exists>d. Some success_result = Some d \<and>
       (dict_get d ''status'' = JStr ''success'' \<or> dict_get d ''status'' = JStr ''partial'')"
    using processing_error_gives_partial [THEN conjunct2, THEN conjunct1, rule_format,
        where ev = "reading_env (JObj success_reply)"
          and es = "example_fetch @ [Processed ''t1'' answered 3]"
          and cfg = example_config and rate_limit = 5 and cache_ttl = 3600
          and tid' = "''t1''"
          and r' = "\<lparr>task_id = ''t1'', t_url = ''https://example.com'',
             t_status = ''completed'', t_created_at = 0, t_updated_at = 3,
             t_result = Some success_result, t_error = None\<rparr>"]
      fin reading_fresh
    unfolding example_app_def by (simp; blast)
  have three: "\<exists>d. Some success_result = Some d \<and>
       (dict_get d ''status'' = JStr ''partial'' \<longleftrightarrow> dict_has d ''processing_error'')"
    using processing_error_gives_partial [THEN conjunct2, THEN conjunct2, rule_format,
        where ev = "reading_env (JObj success_reply)"
          and es = "example_fetch @ [Processed ''t1'' answered 3]"
          and cfg = example_config and rate_limit = 5 and cache_ttl = 3600
          and tid' = "''t1''"
          and r' = "\<lparr>task_id = ''t1'', t_url = ''https://example.com'',
             t_status = ''completed'', t_created_at = 0, t_updated_at = 3,
             t_result = Some success_result, t_error = None\<rparr>"]
      fin success_admissible
    unfolding example_app_def by (simp; blast)
  have res2: "dict_get success_result ''status'' = JStr ''success'' \<or>
      dict_get success_result ''status'' = JStr ''partial''"
    using two by blast
  have res3: "(dict_get success_result ''status'' = JStr ''partial'') =
      dict_has success_result ''processing_error''"
    using three by blast
  show ?thesis
    by (intro conjI fr st one' success_admissible fin res2 res3)
qed

text \<open>
  The pipeline does not check the response it merges. A response that says \<open>success\<close>
  and carries an \<open>error\<close> gives a completed task whose result has status \<open>"success"\<close>
  and the key \<open>processing_error\<close>.
\<close>

theorem inconsistent_reply_counterexample:
  "along fresh (reading_env (JObj odd_reply)) (example_fetch @ [Processed ''t1'' answered 3])
     example_app \<and>
   call_processing_server_async (json_library (reading_env (JObj odd_reply))) answered
       (JObj [(''url'', JStr ''https://example.com''), (''tasks'', all_tasks),
              (''image_urls'', JArr []), (''html'', JStr ''<html></html>''),
              (''scraping_data'', JObj example_scraping_data)]) = Inr (JObj odd_reply) \<and>
   task_manager (run (reading_env (JObj odd_reply))
       (example_fetch @ [Processed ''t1'' answered 3]) example_app) ''t1'' =
     Some \<lparr>task_id = ''t1'', t_url = ''https://example.com'', t_status = ''completed'',
           t_created_at = 0, t_updated_at = 3, t_result = Some odd_result, t_error = None\<rparr> \<and>
   dict_get odd_result ''status'' = JStr ''success'' \<and>
   dict_has odd_result ''processing_error''"
proof -
  have "dict_get odd_result ''status'' = JStr ''success''" "dict_has odd_result ''processing_error''"
    by (simp_all add: odd_result_def dict_get_def dict_get_default_def dict_has_def)
  then show ?thesis
    by (simp add: reading_fresh reading_call reading_done_state odd_merged)
qed

subsection \<open>Task records and fetch timeouts\<close>

lemma example_start_state:
  "running_tasks (run example_env example_start example_app) ''t1'' =
     Some (AwaitFetch ''https://example.com'')"
  by (simp add: example_start_def example_app_def example_env_def
      example_config_def build_app_def handle_scrape_def DomainRateLimiter_allow_def
      DomainRateLimiter_init_def ResultCache_init_def ResultCache_get_def
      TaskManager_create_task_def bucket_of_def process_scrape_task_start_def
      TaskManager_set_status_def Let_def)

lemma example_start_fresh: "along fresh example_env example_start example_app"
  by (simp add: example_start_def example_app_def build_app_def)

lemma example_timeout_state:
  "task_manager (run example_env (example_start @
       [Fetched ''t1'' (Inl (Exc TimeoutError [])) 31]) example_app) ''t1'' =
     Some \<lparr>task_id = ''t1'', t_url = ''https://example.com'', t_status = ''failed'',
           t_created_at = 0, t_updated_at = 31, t_result = None, t_error = Some ''Timeout''\<rparr>"
  by (simp add: example_start_def example_app_def example_env_def
      example_config_def build_app_def handle_scrape_def DomainRateLimiter_allow_def
      DomainRateLimiter_init_def ResultCache_init_def ResultCache_get_def
      TaskManager_create_task_def bucket_of_def process_scrape_task_start_def
      process_scrape_task_fetched_def except_clauses_def
      TaskManager_set_status_def Let_def)

lemma example_timeout_fresh:
  "along fresh example_env (example_start @
       [Fetched ''t1'' (Inl (Exc TimeoutError [])) 31]) example_app"
  by (simp add: along_append example_start_fresh)

text \<open>
  Claim C5, amended. For every task record in a run of the scraping server from
  \<open>build_app\<close>, whose calls on the task manager are those of \<open>handle_scrape\<close> and
  \<open>process_scrape_task\<close> and whose task ids are never drawn twice: \<open>completed\<close> implies
  a result and no error, and \<open>failed\<close> implies no result and an error.
\<close>

theorem task_records_ok:
  "along fresh ev es (build_app cfg rate_limit cache_ttl) \<and>
   task_manager (run ev es (build_app cfg rate_limit cache_ttl)) tid = Some r \<longrightarrow>
     (t_status r = ''completed'' \<longrightarrow> t_result r \<noteq> None \<and> t_error r = None) \<and>
     (t_status r = ''failed'' \<longrightarrow> t_result r = None \<and> t_error r \<noteq> None)"
proof
  assume h: "along fresh ev es (build_app cfg rate_limit cache_ttl) \<and>
   task_manager (run ev es (build_app cfg rate_limit cache_ttl)) tid = Some r"
  then have "app_inv (run ev es (build_app cfg rate_limit cache_ttl))"
    by (simp add: app_inv_run app_inv_build)
  then have "record_ok r" using h unfolding app_inv_def by blast
  then show "(t_status r = ''completed'' \<longrightarrow> t_result r \<noteq> None \<and> t_error r = None) \<and>
     (t_status r = ''failed'' \<longrightarrow> t_result r = None \<and> t_error r \<noteq> None)"
    by (simp add: record_ok_def)
qed

theorem task_records_ok_witness:
  "t_status \<lparr>task_id = ''t1'', t_url = ''https://example.com'', t_status = ''failed'',
           t_created_at = 0, t_updated_at = 31, t_result = None, t_error = Some ''Timeout''\<rparr>
     = ''failed'' \<and>
   t_result \<lparr>task_id = ''t1'', t_url = ''https://example.com'', t_status = ''failed'',
           t_created_at = 0, t_updated_at = 31, t_result = None, t_error = Some ''Timeout''\<rparr>
     = None \<and>
   t_error \<lparr>task_id = ''t1'', t_url = ''https://example.com'', t_status = ''failed'',
           t_created_at = 0, t_updated_at = 31, t_result = None, t_error = Some ''Timeout''\<rparr>
     \<noteq> None \<and>
   along fresh example_env (example_start @
       [Fetched ''t1'' (Inl (Exc TimeoutError [])) 31]) example_app"
  using task_records_ok [of example_env "example_start @
            [Fetched ''t1'' (Inl (Exc TimeoutError [])) 31]" example_config 5 3600 "''t1''"
            "\<lparr>task_id = ''t1'', t_url = ''https://example.com'', t_status = ''failed'',
           t_created_at = 0, t_updated_at = 31, t_result = None, t_error = Some ''Timeout''\<rparr>"]
    example_timeout_state example_timeout_fresh
  unfolding example_app_def by simp

text \<open>
  The task manager itself checks nothing: \<open>set_status(id, "completed")\<close> on a new task
  leaves it completed without a result, and \<open>set_status(id, "failed")\<close> after
  \<open>set_result\<close> leaves it failed with a result and without an error.
\<close>

theorem set_status_completed_counterexample:
  "tm_calls [CreateTask ''t1'' 0 ''https://example.com'',
             SetStatus ''t1'' ''completed'' None 1] Map.empty ''t1'' =
     Some \<lparr>task_id = ''t1'', t_url = ''https://example.com'', t_status = ''completed'',
           t_created_at = 0, t_updated_at = 1, t_result = None, t_error = None\<rparr>
   \<and> tm_calls [CreateTask ''t1'' 0 ''https://example.com'',
               SetResult ''t1'' example_result ''completed'' 1,
               SetStatus ''t1'' ''failed'' None 2] Map.empty ''t1'' =
     Some \<lparr>task_id = ''t1'', t_url = ''https://example.com'', t_status = ''failed'',
           t_created_at = 0, t_updated_at = 2, t_result = Some example_result,
           t_error = None\<rparr>"
  by (simp add: TaskManager_create_task_def TaskManager_set_status_def
      TaskManager_set_result_def Let_def)

text \<open>
  Claim C6. In a run of the server, when the fetch of a task's URL ends in a timeout
  (\<open>asyncio.TimeoutError\<close>), the pipeline sets the task to \<open>failed\<close> with error exactly
  \<open>"Timeout"\<close>; the task has no result, the cache is as it was and the background task
  has ended.
\<close>

theorem fetch_timeout_fails_task:
  "along fresh ev es (build_app cfg rate_limit cache_ttl) \<and>
   running_tasks (run ev es (build_app cfg rate_limit cache_ttl)) tid = Some (AwaitFetch url) \<longrightarrow>
     (\<exists>r. task_manager (fire ev (Fetched tid (Inl (Exc TimeoutError msg)) now)
               (run ev es (build_app cfg rate_limit cache_ttl))) tid = Some r \<and>
          t_status r = ''failed'' \<and> t_error r = Some ''Timeout'' \<and> t_result r = None) \<and>
     cache (fire ev (Fetched tid (Inl (Exc TimeoutError msg)) now)
              (run ev es (build_app cfg rate_limit cache_ttl))) =
       cache (run ev es (build_app cfg rate_limit cache_ttl)) \<and>
     running_tasks (fire ev (Fetched tid (Inl (Exc TimeoutError msg)) now)
              (run ev es (build_app cfg rate_limit cache_ttl))) tid = None"
proof
  let ?a = "run ev es (build_app cfg rate_limit cache_ttl)"
  assume h: "along fresh ev es (build_app cfg rate_limit cache_ttl) \<and>
   running_tasks ?a tid = Some (AwaitFetch url)"
  then have "app_inv ?a" by (simp add: app_inv_run app_inv_build)
  then obtain r where r: "task_manager ?a tid = Some r" "t_result r = None"
    using h unfolding app_inv_def by blast
  have "fire ev (Fetched tid (Inl (Exc TimeoutError msg)) now) ?a =
      except_clauses tid (Exc TimeoutError msg) now ?a"
    using h by (simp add: process_scrape_task_fetched_def)
  then show "(\<exists>r. task_manager (fire ev (Fetched tid (Inl (Exc TimeoutError msg)) now) ?a) tid
                 = Some r \<and>
          t_status r = ''failed'' \<and> t_error r = Some ''Timeout'' \<and> t_result r = None) \<and>
     cache (fire ev (Fetched tid (Inl (Exc TimeoutError msg)) now) ?a) = cache ?a \<and>
     running_tasks (fire ev (Fetched tid (Inl (Exc TimeoutError msg)) now) ?a) tid = None"
    using r by (simp add: except_clauses_running [OF r(1)])
qed

theorem fetch_timeout_fails_task_witness:
  "along fresh example_env example_start example_app \<and>
   running_tasks (run example_env example_start example_app) ''t1'' =
     Some (AwaitFetch ''https://example.com'') \<and>
   (\<exists>r. task_manager (fire example_env (Fetched ''t1'' (Inl (Exc TimeoutError [])) 31)
               (run example_env example_start example_app)) ''t1'' = Some r \<and>
          t_status r = ''failed'' \<and> t_error r = Some ''Timeout'' \<and> t_result r = None) \<and>
   cache (fire example_env (Fetched ''t1'' (Inl (Exc TimeoutError [])) 31)
            (run example_env example_start example_app)) =
     cache (run example_env example_start example_app)"
  using fetch_timeout_fails_task [of example_env example_start example_config 5 3600 "''t1''"
      "''https://example.com''" "[]" 31]
    example_start_state example_start_fresh
  unfolding example_app_def by blast

subsection \<open>Rate limiting in the front-end\<close>

lemma handle_scrape_rejected:
  assumes "urlparse_hostname ev url = Inr (Some domain)" and "domain \<noteq> []"
    and "DomainRateLimiter_allow domain now (rate_limiter a) = (False, rl)"
  shows "handle_scrape ev (Inr url) tid now a =
           (Inr (json_response (error_response ''Rate limit excedido para el dominio'') 429),
            a\<lparr>rate_limiter := rl\<rparr>)"
  using assms by (simp add: handle_scrape_def)

lemma handle_scrape_admitted:
  assumes "urlparse_hostname ev url = Inr (Some domain)" and "domain \<noteq> []"
    and "DomainRateLimiter_allow domain now (rate_limiter a) = (True, rl)"
  shows "rate_limiter (snd (handle_scrape ev (Inr url) tid now a)) = rl \<and>
         task_manager (snd (handle_scrape ev (Inr url) tid now a)) tid \<noteq> None"
  using assms
  by (auto simp: handle_scrape_def TaskManager_create_task_def TaskManager_set_result_def
      Let_def split: prod.splits option.splits)

lemma handle_scrape_hit:
  assumes "urlparse_hostname ev url = Inr (Some domain)" and "domain \<noteq> []"
    and "DomainRateLimiter_allow domain now (rate_limiter a) = (True, rl)"
    and "entries (cache a) url = Some (t, d)" and "d \<noteq> []" and "\<not> now - t > of_int (ttl (cache a))"
  shows "fst (handle_scrape ev (Inr url) tid now a) =
           Inr (json_response [(''task_id'', JStr tid), (''status'', JStr ''completed''),
                               (''cached'', JBool True)] 200)"
  using assms
  by (simp add: handle_scrape_def TaskManager_create_task_def TaskManager_set_result_def
      ResultCache_get_def Let_def)

lemma limited_requests:
  "urlparse_hostname ev url = Inr (Some domain) \<and> domain \<noteq> [] \<and> 0 < rl_max (rate_limiter a) \<longrightarrow>
     (rl_max (rate_limiter a) \<le>
        int (length (purge now (rl_period (rate_limiter a)) (bucket_of (rate_limiter a) domain))) \<longrightarrow>
      (\<exists>rl. handle_scrape ev (Inr url) tid now a =
               (Inr (json_response (error_response ''Rate limit excedido para el dominio'') 429),
                a\<lparr>rate_limiter := rl\<rparr>))) \<and>
     (int (length (purge now (rl_period (rate_limiter a)) (bucket_of (rate_limiter a) domain)))
        < rl_max (rate_limiter a) \<longrightarrow>
      bucket_of (rate_limiter (snd (handle_scrape ev (Inr url) tid now a))) domain =
        purge now (rl_period (rate_limiter a)) (bucket_of (rate_limiter a) domain) @ [now] \<and>
      task_manager (snd (handle_scrape ev (Inr url) tid now a)) tid \<noteq> None \<and>
      (\<forall>t d. entries (cache a) url = Some (t, d) \<and> d \<noteq> [] \<and> now - t \<le> of_int (ttl (cache a)) \<longrightarrow>
         fst (handle_scrape ev (Inr url) tid now a) =
           Inr (json_response [(''task_id'', JStr tid), (''status'', JStr ''completed''),
                               (''cached'', JBool True)] 200)))"
proof (intro impI conjI)
  let ?b = "purge now (rl_period (rate_limiter a)) (bucket_of (rate_limiter a) domain)"
  assume h: "urlparse_hostname ev url = Inr (Some domain) \<and> domain \<noteq> [] \<and>
    0 < rl_max (rate_limiter a)"
  {
    assume full: "rl_max (rate_limiter a) \<le> int (length ?b)"
    have "DomainRateLimiter_allow domain now (rate_limiter a) =
        (False, (rate_limiter a)\<lparr>rl_calls := (rl_calls (rate_limiter a))(domain \<mapsto> ?b)\<rparr>)"
      using h full by (simp add: DomainRateLimiter_allow_def Let_def)
    with h show "\<exists>rl. handle_scrape ev (Inr url) tid now a =
               (Inr (json_response (error_response ''Rate limit excedido para el dominio'') 429),
                a\<lparr>rate_limiter := rl\<rparr>)"
      using handle_scrape_rejected by blast
  }
  {
    assume room: "int (length ?b) < rl_max (rate_limiter a)"
    have al: "DomainRateLimiter_allow domain now (rate_limiter a) =
        (True, (rate_limiter a)\<lparr>rl_calls := (rl_calls (rate_limiter a))(domain \<mapsto> ?b @ [now])\<rparr>)"
      using h room by (simp add: DomainRateLimiter_allow_def Let_def)
    from handle_scrape_admitted [OF _ _ al, of ev url tid] h
    show "bucket_of (rate_limiter (snd (handle_scrape ev (Inr url) tid now a))) domain =
        ?b @ [now]"
      and "task_manager (snd (handle_scrape ev (Inr url) tid now a)) tid \<noteq> None"
      by (simp_all add: bucket_of_def)
    show "\<forall>t d. entries (cache a) url = Some (t, d) \<and> d \<noteq> [] \<and>
             now - t \<le> of_int (ttl (cache a)) \<longrightarrow>
         fst (handle_scrape ev (Inr url) tid now a) =
           Inr (json_response [(''task_id'', JStr tid), (''status'', JStr ''completed''),
                               (''cached'', JBool True)] 200)"
      using handle_scrape_hit [OF _ _ al, of ev url _ _ tid] h by auto
  }
qed

lemma unlimited_requests:
  "urlparse_hostname ev url = Inr (Some domain) \<and> domain \<noteq> [] \<and> rl_max (rate_limiter a) \<le> 0 \<longrightarrow>
     rate_limiter (snd (handle_scrape ev (Inr url) tid now a)) = rate_limiter a \<and>
     task_manager (snd (handle_scrape ev (Inr url) tid now a)) tid \<noteq> None \<and>
     (fst (handle_scrape ev (Inr url) tid now a) =
        Inr (json_response [(''task_id'', JStr tid), (''status'', JStr ''completed''),
                            (''cached'', JBool True)] 200) \<or>
      fst (handle_scrape ev (Inr url) tid now a) =
        Inr (json_response [(''task_id'', JStr tid), (''status'', JStr ''pending'')] 202))"
proof
  assume h: "urlparse_hostname ev url = Inr (Some domain) \<and> domain \<noteq> [] \<and>
    rl_max (rate_limiter a) \<le> 0"
  then have al: "DomainRateLimiter_allow domain now (rate_limiter a) = (True, rate_limiter a)"
    by (simp add: DomainRateLimiter_allow_def)
  have "fst (handle_scrape ev (Inr url) tid now a) =
        Inr (json_response [(''task_id'', JStr tid), (''status'', JStr ''completed''),
                            (''cached'', JBool True)] 200) \<or>
      fst (handle_scrape ev (Inr url) tid now a) =
        Inr (json_response [(''task_id'', JStr tid), (''status'', JStr ''pending'')] 202)"
    using h al
    by (auto simp: handle_scrape_def TaskManager_create_task_def TaskManager_set_result_def
        Let_def split: prod.splits option.splits)
  then show "rate_limiter (snd (handle_scrape ev (Inr url) tid now a)) = rate_limiter a \<and>
     task_manager (snd (handle_scrape ev (Inr url) tid now a)) tid \<noteq> None \<and>
     (fst (handle_scrape ev (Inr url) tid now a) =
        Inr (json_response [(''task_id'', JStr tid), (''status'', JStr ''completed''),
                            (''cached'', JBool True)] 200) \<or>
      fst (handle_scrape ev (Inr url) tid now a) =
        Inr (json_response [(''task_id'', JStr tid), (''status'', JStr ''pending'')] 202))"
    using handle_scrape_admitted [OF _ _ al, of ev url tid] h by simp
qed

text \<open>
  Claim C9, amended. For a \<open>/scrape\<close> request whose URL has a host. With a positive
  limit \<open>max\<close>: when \<open>max\<close> or more timestamps remain in the domain's bucket after the
  purge, the request is answered 429 and only the limiter has changed (no task is
  created, the cache is neither read nor written), whatever the cache holds for the
  URL; otherwise the request is admitted, a task is created and \<open>now\<close> is appended to
  the domain's bucket, also when a fresh cache entry answers the request with
  \<open>completed\<close> and \<open>cached\<close>. With \<open>max \<le> 0\<close>: the request is admitted, a task is created
  and the limiter is left as it was, no timestamp recorded.
\<close>

theorem rate_limit_before_cache:
  "(urlparse_hostname ev url = Inr (Some domain) \<and> domain \<noteq> [] \<and> 0 < rl_max (rate_limiter a) \<longrightarrow>
     (rl_max (rate_limiter a) \<le>
        int (length (purge now (rl_period (rate_limiter a)) (bucket_of (rate_limiter a) domain))) \<longrightarrow>
      (\<exists>rl. handle_scrape ev (Inr url) tid now a =
               (Inr (json_response (error_response ''Rate limit excedido para el dominio'') 429),
                a\<lparr>rate_limiter := rl\<rparr>))) \<and>
     (int (length (purge now (rl_period (rate_limiter a)) (bucket_of (rate_limiter a) domain)))
        < rl_max (rate_limiter a) \<longrightarrow>
      bucket_of (rate_limiter (snd (handle_scrape ev (Inr url) tid now a))) domain =
        purge now (rl_period (rate_limiter a)) (bucket_of (rate_limiter a) domain) @ [now] \<and>
      task_manager (snd (handle_scrape ev (Inr url) tid now a)) tid \<noteq> None \<and>
      (\<forall>t d. entries (cache a) url = Some (t, d) \<and> d \<noteq> [] \<and> now - t \<le> of_int (ttl (cache a)) \<longrightarrow>
         fst (handle_scrape ev (Inr url) tid now a) =
           Inr (json_response [(''task_id'', JStr tid), (''status'', JStr ''completed''),
                               (''cached'', JBool True)] 200))))
   \<and> (urlparse_hostname ev url = Inr (Some domain) \<and> domain \<noteq> [] \<and> rl_max (rate_limiter a) \<le> 0 \<longrightarrow>
     rate_limiter (snd (handle_scrape ev (Inr url) tid now a)) = rate_limiter a \<and>
     task_manager (snd (handle_scrape ev (Inr url) tid now a)) tid \<noteq> None \<and>
     (fst (handle_scrape ev (Inr url) tid now a) =
        Inr (json_response [(''task_id'', JStr tid), (''status'', JStr ''completed''),
                            (''cached'', JBool True)] 200) \<or>
      fst (handle_scrape ev (Inr url) tid now a) =
        Inr (json_response [(''task_id'', JStr tid), (''status'', JStr ''pending'')] 202)))"
  using limited_requests unlimited_requests by (intro conjI)

lemma cached_app_facts:
  "urlparse_hostname example_env ''https://example.com'' = Inr (Some ''example.com'')"
  "rl_max (rate_limiter cached_app) = 1"
  "rl_period (rate_limiter cached_app) = 60"
  "bucket_of (rate_limiter cached_app) ''example.com'' = [0]"
  "entries (cache cached_app) ''https://example.com'' = Some (0, example_result)"
  "ttl (cache cached_app) = 3600"
  by (simp_all add: cached_app_def example_app_def example_env_def build_app_def
      example_limiter_def bucket_of_def ResultCache_set_def ResultCache_init_def)

theorem rate_limit_before_cache_witness:
  "handle_scrape example_env (Inr ''https://example.com'') ''t2'' 30 cached_app =
     (Inr (json_response (error_response ''Rate limit excedido para el dominio'') 429),
      cached_app)
   \<and> fst (handle_scrape example_env (Inr ''https://example.com'') ''t2'' 90 cached_app) =
       Inr (json_response [(''task_id'', JStr ''t2''), (''status'', JStr ''completed''),
                           (''cached'', JBool True)] 200)
   \<and> bucket_of (rate_limiter (snd (handle_scrape example_env (Inr ''https://example.com'')
                                      ''t2'' 90 cached_app))) ''example.com'' = [90]
   \<and> rl_max (rate_limiter (build_app example_config 0 3600)) \<le> 0
   \<and> rate_limiter (snd (handle_scrape example_env (Inr ''https://example.com'') ''t1'' 5
        (build_app example_config 0 3600))) = DomainRateLimiter_init 0
   \<and> task_manager (snd (handle_scrape example_env (Inr ''https://example.com'') ''t1'' 5
        (build_app example_config 0 3600))) ''t1'' \<noteq> None"
proof -
  have ex: "example_result \<noteq> []" by (simp add: example_result_def)
  have rej: "\<exists>rl. handle_scrape example_env (Inr ''https://example.com'') ''t2'' 30 cached_app =
     (Inr (json_response (error_response ''Rate limit excedido para el dominio'') 429),
      cached_app\<lparr>rate_limiter := rl\<rparr>)"
    using rate_limit_before_cache [where ev = example_env and url = "''https://example.com''"
        and domain = "''example.com''" and a = cached_app and now = 30 and tid = "''t2''",
        THEN conjunct1]
    by (simp add: cached_app_facts)
  have same: "snd (handle_scrape example_env (Inr ''https://example.com'') ''t2'' 30 cached_app)
      = cached_app"
    by (simp add: handle_scrape_def cached_app_def example_app_def example_env_def build_app_def
        example_limiter_def DomainRateLimiter_allow_def bucket_of_def Let_def)
  have a: "handle_scrape example_env (Inr ''https://example.com'') ''t2'' 30 cached_app =
     (Inr (json_response (error_response ''Rate limit excedido para el dominio'') 429),
      cached_app)"
    using rej same by (metis prod.collapse fst_conv)
  have b: "fst (handle_scrape example_env (Inr ''https://example.com'') ''t2'' 90 cached_app) =
       Inr (json_response [(''task_id'', JStr ''t2''), (''status'', JStr ''completed''),
                           (''cached'', JBool True)] 200)"
    and c: "bucket_of (rate_limiter (snd (handle_scrape example_env (Inr ''https://example.com'')
                                      ''t2'' 90 cached_app))) ''example.com'' = [90]"
    using rate_limit_before_cache [where ev = example_env and url = "''https://example.com''"
        and domain = "''example.com''" and a = cached_app and now = 90 and tid = "''t2''",
        THEN conjunct1] ex
    by (simp_all add: cached_app_facts)
  have z: "rl_max (rate_limiter (build_app example_config 0 3600)) \<le> 0"
    and r: "rate_limiter (build_app example_config 0 3600) = DomainRateLimiter_init 0"
    by (simp_all add: build_app_def DomainRateLimiter_init_def)
  have u: "rate_limiter (snd (handle_scrape example_env (Inr ''https://example.com'') ''t1'' 5
        (build_app example_config 0 3600))) = DomainRateLimiter_init 0"
    and v: "task_manager (snd (handle_scrape example_env (Inr ''https://example.com'') ''t1'' 5
        (build_app example_config 0 3600))) ''t1'' \<noteq> None"
    using rate_limit_before_cache [where ev = example_env and url = "''https://example.com''"
        and domain = "''example.com''" and a = "build_app example_config 0 3600" and now = 5
        and tid = "''t1''", THEN conjunct2] z
    by (simp_all add: cached_app_facts r)
  show ?thesis by (intro conjI a b c z u v)
qed

text \<open>
  With the limit set to 0 every request is admitted and the limiter records nothing:
  an admitted request consumes no timestamp.
\<close>

theorem unlimited_admission_counterexample:
  "handle_scrape example_env (Inr ''https://example.com'') ''t1'' 0
     (build_app example_config 0 3600) =
     (Inr (json_response [(''task_id'', JStr ''t1''), (''status'', JStr ''pending'')] 202),
      (build_app example_config 0 3600)
        \<lparr>task_manager := [''t1'' \<mapsto> \<lparr>task_id = ''t1'', t_url = ''https://example.com'',
             t_status = ''pending'', t_created_at = 0, t_updated_at = 0, t_result = None,
             t_error = None\<rparr>],
         running_tasks := [''t1'' \<mapsto> Scheduled ''https://example.com'']\<rparr>)
   \<and> rate_limiter (snd (handle_scrape example_env (Inr ''https://example.com'') ''t1'' 0
        (build_app example_config 0 3600))) = DomainRateLimiter_init 0
   \<and> rl_calls (DomainRateLimiter_init 0) ''example.com'' = None"
  by (simp add: handle_scrape_def example_env_def build_app_def DomainRateLimiter_allow_def
      DomainRateLimiter_init_def ResultCache_init_def ResultCache_get_def
      TaskManager_create_task_def Let_def)

end
